theory Spec2Isabelle
  imports Complex_Main
begin

section \<open>Python values used by the bot\<close>

text \<open>
  A Python \<open>str\<close> is a sequence of Unicode code points; \<open>len\<close> counts code points.
  ASCII pieces of a literal are written with \<open>ustr\<close>, other code points as numbers
  (U+274C is 10060, a line feed is 10).
\<close>

type_synonym pystr = "nat list"

definition ustr :: "string \<Rightarrow> pystr" where
  "ustr s = map of_char s"

text \<open>
  \<open>str.isalnum\<close>, \<open>str.isalpha\<close> and \<open>str.isdigit\<close> consult the Unicode character
  database of the interpreter, which is no part of the repository: it is a parameter.
  CPython: a string is alphanumeric when it is not empty and every character is
  alphabetic, decimal, a digit or numeric.
\<close>

record ucd =
  isalpha_cp :: "nat \<Rightarrow> bool"
  isdecimal_cp :: "nat \<Rightarrow> bool"
  isdigit_cp :: "nat \<Rightarrow> bool"
  isnumeric_cp :: "nat \<Rightarrow> bool"

definition isalnum_cp :: "ucd \<Rightarrow> nat \<Rightarrow> bool" where
  "isalnum_cp U c = (isalpha_cp U c \<or> isdecimal_cp U c \<or> isdigit_cp U c \<or> isnumeric_cp U c)"

definition str_isalnum :: "ucd \<Rightarrow> pystr \<Rightarrow> bool" where
  "str_isalnum U s = (s \<noteq> [] \<and> list_all (isalnum_cp U) s)"

definition str_isalpha :: "ucd \<Rightarrow> pystr \<Rightarrow> bool" where
  "str_isalpha U s = (s \<noteq> [] \<and> list_all (isalpha_cp U) s)"

definition str_isdigit :: "ucd \<Rightarrow> pystr \<Rightarrow> bool" where
  "str_isdigit U s = (s \<noteq> [] \<and> list_all (isdigit_cp U) s)"

text \<open>
  The character database on U+0000 to U+00FF (the same in every Unicode version):
  letters are A-Z, a-z, U+00AA, U+00B5, U+00BA, U+00C0-U+00D6, U+00D8-U+00F6 and
  U+00F8-U+00FF; the decimals are 0-9; the digits add the superscripts U+00B2, U+00B3,
  U+00B9; the numerics add the fractions U+00BC, U+00BD, U+00BE. Code points from
  U+0100 on are not classified by this table.
\<close>

definition latin1 :: ucd where
  "latin1 = \<lparr>
     isalpha_cp = (\<lambda>c. (65 \<le> c \<and> c \<le> 90) \<or> (97 \<le> c \<and> c \<le> 122) \<or> c = 170 \<or> c = 181
        \<or> c = 186 \<or> (192 \<le> c \<and> c \<le> 214) \<or> (216 \<le> c \<and> c \<le> 246) \<or> (248 \<le> c \<and> c \<le> 255)),
     isdecimal_cp = (\<lambda>c. 48 \<le> c \<and> c \<le> 57),
     isdigit_cp = (\<lambda>c. (48 \<le> c \<and> c \<le> 57) \<or> c = 178 \<or> c = 179 \<or> c = 185),
     isnumeric_cp = (\<lambda>c. (48 \<le> c \<and> c \<le> 57) \<or> c = 178 \<or> c = 179 \<or> c = 185
        \<or> (188 \<le> c \<and> c \<le> 190)) \<rparr>"

text \<open>\<open>str(n)\<close> for an integer, as \<open>"{}".format(n)\<close> prints it.\<close>

fun str_nat :: "nat \<Rightarrow> pystr" where
  "str_nat n = (if n < 10 then [48 + n] else str_nat (n div 10) @ [48 + n mod 10])"

declare str_nat.simps [simp del]

definition str_int :: "int \<Rightarrow> pystr" where
  "str_int i = (if i < 0 then 45 # str_nat (nat (- i)) else str_nat (nat i))"

text \<open>\<open>sep.join(xs)\<close>.\<close>

fun join :: "pystr \<Rightarrow> pystr list \<Rightarrow> pystr" where
  "join sep [] = []"
| "join sep [x] = x"
| "join sep (x # y # ys) = x @ sep @ join sep (y # ys)"

text \<open>Truth value of an optional string: \<open>None\<close> and the empty string are false.\<close>

fun truthy :: "pystr option \<Rightarrow> bool" where
  "truthy None = False"
| "truthy (Some s) = (s \<noteq> [])"

datatype error = ValueError | AssertionError | OtherError

section \<open>The game engine (game.py), a parameter\<close>

text \<open>
  The class \<open>Board\<close> lives in game.py, which is not among the sources. The bot calls
  its constructor in three ways, \<open>Board()\<close>, \<open>Board(old_score=S)\<close> and
  \<open>Board(stored)\<close> (where \<open>stored\<close> is the board column, possibly \<open>None\<close>), its methods
  \<open>move\<close>, \<open>next\<close>, \<open>result\<close>, \<open>export\<close>, \<open>__str__\<close>, and reads \<open>score\<close>,
  \<open>old_score\<close> and the glyphs \<open>CELL[e.color]\<close> of \<open>game.next_balls\<close>. The constructor,
  \<open>move\<close> and \<open>next\<close> may draw random balls: they take and return the state \<open>'r\<close> of
  the random generator; and they may raise.
\<close>

datatype board_args = Fresh | Carry int | Load "pystr option"

record ('b, 'r) engine =
  Board :: "board_args \<Rightarrow> 'r \<Rightarrow> (error + 'b) \<times> 'r"
  b_move :: "'b \<Rightarrow> pystr \<Rightarrow> 'r \<Rightarrow> (error + 'b) \<times> 'r"
  b_next :: "'b \<Rightarrow> 'r \<Rightarrow> (error + 'b) \<times> 'r"
  b_result :: "'b \<Rightarrow> int"
  b_score :: "'b \<Rightarrow> int"
  b_old_score :: "'b \<Rightarrow> int"
  b_export :: "'b \<Rightarrow> pystr"
  b_str :: "'b \<Rightarrow> pystr"
  b_next_balls :: "'b \<Rightarrow> pystr list"

section \<open>The database (db.py)\<close>

text \<open>
  Modelled from the spec: the class \<open>DBManager\<close> (db.py) is not among the sources. The
  spec has one persisted row per game, holding the serialized board (or the \<open>None\<close>
  sentinel) and the score, and a nickname registry; the columns \<open>addr\<close>, \<open>gid\<close>,
  \<open>board\<close>, \<open>score\<close> are the keys the bot reads from a row. \<open>set_game\<close> stores a
  board and a score for the player's row, \<open>set_board\<close> only a board, \<open>add_game\<close>
  inserts a row (with score 0), \<open>delete_game\<close> removes the player's row.
\<close>

record game =
  addr :: pystr
  gid :: int
  board :: "pystr option"
  score :: int

definition get_game_by_gid :: "game list \<Rightarrow> int \<Rightarrow> game option" where
  "get_game_by_gid gs i = find (\<lambda>g. gid g = i) gs"

definition get_game_by_addr :: "game list \<Rightarrow> pystr \<Rightarrow> game option" where
  "get_game_by_addr gs a = find (\<lambda>g. addr g = a) gs"

definition set_game :: "game list \<Rightarrow> pystr \<Rightarrow> pystr option \<Rightarrow> int \<Rightarrow> game list" where
  "set_game gs a b s = map (\<lambda>g. if addr g = a then g\<lparr>board := b, score := s\<rparr> else g) gs"

definition set_board :: "game list \<Rightarrow> pystr \<Rightarrow> pystr option \<Rightarrow> game list" where
  "set_board gs a b = map (\<lambda>g. if addr g = a then g\<lparr>board := b\<rparr> else g) gs"

definition add_game :: "game list \<Rightarrow> pystr \<Rightarrow> int \<Rightarrow> pystr \<Rightarrow> game list" where
  "add_game gs a i b = gs @ [\<lparr>addr = a, gid = i, board = Some b, score = 0\<rparr>]"

definition delete_game :: "game list \<Rightarrow> pystr \<Rightarrow> game list" where
  "delete_game gs a = filter (\<lambda>g. addr g \<noteq> a) gs"

definition get_nick :: "(pystr \<times> pystr) list \<Rightarrow> pystr \<Rightarrow> pystr option" where
  "get_nick ns a = map_of ns a"

section \<open>The world the handlers act on\<close>

text \<open>
  A handler reads and writes the database, adds replies, and calls the engine. The
  \<open>trace\<close> records, in order, every constructor, \<open>move\<close> and \<open>next\<close> call and every
  database write, so that "is never called" can be stated.
\<close>

datatype event =
    Board_call board_args
  | Move_call pystr
  | Next_call
  | Set_game pystr "pystr option" int
  | Set_board pystr "pystr option"
  | Add_game pystr int pystr
  | Delete_game pystr
  | Create_group pystr

record reply =
  r_text :: pystr
  r_chat :: "int option"

record message =
  m_text :: pystr
  m_chat :: int
  m_sender_addr :: pystr
  m_sender_name :: pystr

record 'r world =
  games :: "game list"
  nicks :: "(pystr \<times> pystr) list"
  replies :: "reply list"
  trace :: "event list"
  rng :: 'r

definition call_Board :: "('b, 'r) engine \<Rightarrow> board_args \<Rightarrow> 'r world \<Rightarrow> (error + 'b) \<times> 'r world" where
  "call_Board E a w =
     (case Board E a (rng w) of
        (res, r') \<Rightarrow> (res, w\<lparr>trace := trace w @ [Board_call a], rng := r'\<rparr>))"

definition call_move :: "('b, 'r) engine \<Rightarrow> 'b \<Rightarrow> pystr \<Rightarrow> 'r world \<Rightarrow> (error + 'b) \<times> 'r world" where
  "call_move E b t w =
     (case b_move E b t (rng w) of
        (res, r') \<Rightarrow> (res, w\<lparr>trace := trace w @ [Move_call t], rng := r'\<rparr>))"

definition call_next :: "('b, 'r) engine \<Rightarrow> 'b \<Rightarrow> 'r world \<Rightarrow> (error + 'b) \<times> 'r world" where
  "call_next E b w =
     (case b_next E b (rng w) of
        (res, r') \<Rightarrow> (res, w\<lparr>trace := trace w @ [Next_call], rng := r'\<rparr>))"

definition db_set_game :: "pystr \<Rightarrow> pystr option \<Rightarrow> int \<Rightarrow> 'r world \<Rightarrow> 'r world" where
  "db_set_game a b s w =
     w\<lparr>games := set_game (games w) a b s, trace := trace w @ [Set_game a b s]\<rparr>"

definition db_set_board :: "pystr \<Rightarrow> pystr option \<Rightarrow> 'r world \<Rightarrow> 'r world" where
  "db_set_board a b w =
     w\<lparr>games := set_board (games w) a b, trace := trace w @ [Set_board a b]\<rparr>"

definition db_add_game :: "pystr \<Rightarrow> int \<Rightarrow> pystr \<Rightarrow> 'r world \<Rightarrow> 'r world" where
  "db_add_game a i b w =
     w\<lparr>games := add_game (games w) a i b, trace := trace w @ [Add_game a i b]\<rparr>"

definition db_delete_game :: "pystr \<Rightarrow> 'r world \<Rightarrow> 'r world" where
  "db_delete_game a w =
     w\<lparr>games := delete_game (games w) a, trace := trace w @ [Delete_game a]\<rparr>"

definition add_reply :: "pystr \<Rightarrow> int option \<Rightarrow> 'r world \<Rightarrow> 'r world" where
  "add_reply t c w = w\<lparr>replies := replies w @ [\<lparr>r_text = t, r_chat = c\<rparr>]\<rparr>"

section \<open>The handlers of \_\_init\_\_.py\<close>

subsection \<open>\_run\_turn\<close>

text \<open>
  \<open>b.old_score >= b.score > b.old_score / 2\<close> is a chained comparison, and \<open>/\<close> is
  true division of two integers: its result is the float nearest to the exact quotient,
  ties going to the even significand, and the integer \<open>b.score\<close> is then compared with
  that float exactly. A float has a significand of 53 bits, so the float of \<open>k / 2\<close> is
  half of \<open>k\<close> rounded to its 53 leading bits (\<open>round53\<close>): for \<open>k\<close> below \<open>2 ^ 53\<close>
  in absolute value it is the exact quotient. Python raises OverflowError where the
  quotient is beyond every float (\<open>k\<close> from about \<open>2 ^ 1025\<close>); the model has no such
  scores in view (a stored score is a 64-bit integer), and the statements about the
  quotient carry a bound.
\<close>

fun bitlen :: "nat \<Rightarrow> nat" where
  "bitlen n = (if n = 0 then 0 else Suc (bitlen (n div 2)))"

declare bitlen.simps [simp del]

definition round_nat53 :: "nat \<Rightarrow> nat" where
  "round_nat53 n =
     (let e = bitlen n - 53; d = n div 2 ^ e; r = n mod 2 ^ e
      in if e = 0 then n
         else if 2 * r < 2 ^ e \<or> (2 * r = 2 ^ e \<and> even d) then d * 2 ^ e
         else (d + 1) * 2 ^ e)"

definition round53 :: "int \<Rightarrow> int" where
  "round53 k = (if k < 0 then - int (round_nat53 (nat (- k))) else int (round_nat53 (nat k)))"

definition float_half :: "int \<Rightarrow> real" where
  "float_half k = real_of_int (round53 k) / 2"

definition final_score :: "('b, 'r) engine \<Rightarrow> 'b \<Rightarrow> int" where
  "final_score E b =
     (if b_old_score E b \<ge> b_score E b
         \<and> real_of_int (b_score E b) > float_half (b_old_score E b)
      then b_old_score E b + 1
      else b_score E b)"

definition high_score_text :: "int \<Rightarrow> pystr \<Rightarrow> pystr" where
  "high_score_text s brd =
     [127942] @ ustr '' Game over'' @ [10] @ ustr ''New High Score: '' @ str_int s @ [10]
     @ [128202] @ ustr '' /lines_top'' @ [10, 10] @ brd
     @ [10, 9654, 65039] @ ustr '' Play again?  /lines_play''"

definition game_over_text :: "int \<Rightarrow> pystr \<Rightarrow> pystr" where
  "game_over_text s brd =
     [9760, 65039] @ ustr '' Game over'' @ [10, 128202] @ ustr '' Score: '' @ str_int s
     @ [10, 10] @ ustr '' '' @ brd
     @ [10, 9654, 65039] @ ustr '' Play again?  /lines_play''"

definition turn_text :: "int \<Rightarrow> int \<Rightarrow> pystr \<Rightarrow> pystr list \<Rightarrow> pystr" where
  "turn_text s stored brd balls =
     [128202] @ ustr '' Score: '' @ str_int s @ ustr '' / '' @ str_int stored @ [10, 10] @ brd
     @ [10] @ ustr ''Next:  '' @ join (ustr '' '') balls @ ustr ''  /lines_next''"

definition run_turn :: "('b, 'r) engine \<Rightarrow> int \<Rightarrow> 'r world \<Rightarrow> (error + pystr) \<times> 'r world" where
  "run_turn E i w =
     (case get_game_by_gid (games w) i of
        None \<Rightarrow> (Inl AssertionError, w)
      | Some g \<Rightarrow>
          (case call_Board E (Load (board g)) w of
             (Inl e, w1) \<Rightarrow> (Inl e, w1)
           | (Inr b, w1) \<Rightarrow>
               if b_result E b = 1 then
                 (if final_score E b > b_old_score E b
                  then (Inr (high_score_text (final_score E b) (b_str E b)),
                        db_set_game (addr g) None (final_score E b) w1)
                  else (Inr (game_over_text (final_score E b) (b_str E b)),
                        db_set_board (addr g) None w1))
               else
                 (Inr (turn_text (b_score E b) (score g) (b_str E b) (b_next_balls E b)), w1)))"

subsection \<open>filter\_messages\<close>

definition invalid_move_text :: pystr where
  "invalid_move_text = [10060] @ ustr '' Invalid move!''"

text \<open>The body of the \<open>try\<close> block: the exception it ends with, if any, and the world.\<close>

definition try_move :: "('b, 'r) engine \<Rightarrow> message \<Rightarrow> game \<Rightarrow> 'r world \<Rightarrow> error option \<times> 'r world" where
  "try_move E m g w =
     (case call_Board E (Load (board g)) w of
        (Inl e, w1) \<Rightarrow> (Some e, w1)
      | (Inr b, w1) \<Rightarrow>
          (case call_move E b (m_text m) w1 of
             (Inl e, w2) \<Rightarrow> (Some e, w2)
           | (Inr b', w2) \<Rightarrow>
               (case run_turn E (m_chat m)
                       (if b_score E b' > score g
                        then db_set_game (addr g) (Some (b_export E b')) (b_score E b') w2
                        else db_set_board (addr g) (Some (b_export E b')) w2) of
                  (Inl e, w4) \<Rightarrow> (Some e, w4)
                | (Inr t, w4) \<Rightarrow> (None, add_reply t None w4))))"

definition filter_messages :: "ucd \<Rightarrow> ('b, 'r) engine \<Rightarrow> message \<Rightarrow> 'r world \<Rightarrow> error option \<times> 'r world" where
  "filter_messages U E m w =
     (if length (m_text m) \<noteq> 4 \<or> \<not> str_isalnum U (m_text m) \<or> str_isalpha U (m_text m)
         \<or> str_isdigit U (m_text m)
      then (None, w)
      else
        (case get_game_by_gid (games w) (m_chat m) of
           None \<Rightarrow> (None, w)
         | Some g \<Rightarrow>
             if \<not> truthy (board g) then (None, w)
             else
               (case try_move E m g w of
                  (Some ValueError, w') \<Rightarrow> (None, add_reply invalid_move_text None w')
                | (x, w') \<Rightarrow> (x, w'))))"

subsection \<open>lines\_play\<close>

definition need_nick_text :: pystr where
  "need_nick_text = ustr ''You need to set a nick before start playing, send /lines_nick Your Nick''"

definition hello_text :: "pystr \<Rightarrow> pystr" where
  "hello_text name = ustr ''Hello '' @ name @ ustr '', in this group you can play Color Lines.'' @ [10, 10]"

definition started_text :: pystr where
  "started_text = ustr ''Game started!'' @ [10, 10]"

definition group_name :: pystr where
  "group_name = [127752] @ ustr '' Color Lines''"

text \<open>
  \<open>new_gid\<close> is the id of the chat that \<open>bot.create_group\<close> returns when the player has
  no game yet.
\<close>

definition lines_play :: "('b, 'r) engine \<Rightarrow> int \<Rightarrow> message \<Rightarrow> 'r world \<Rightarrow> error option \<times> 'r world" where
  "lines_play E new_gid m w =
     (if \<not> truthy (get_nick (nicks w) (m_sender_addr m))
      then (None, add_reply need_nick_text None w)
      else
        (case get_game_by_addr (games w) (m_sender_addr m) of
           None \<Rightarrow>
             (case call_Board E Fresh (w\<lparr>trace := trace w @ [Create_group (m_sender_addr m)]\<rparr>) of
                (Inl e, w1) \<Rightarrow> (Some e, w1)
              | (Inr b, w1) \<Rightarrow>
                  (case run_turn E new_gid (db_add_game (m_sender_addr m) new_gid (b_export E b) w1) of
                     (Inl e, w3) \<Rightarrow> (Some e, w3)
                   | (Inr t, w3) \<Rightarrow>
                       (None, add_reply (hello_text (m_sender_name m) @ t) (Some new_gid) w3)))
         | Some g \<Rightarrow>
             (case call_Board E (Carry (score g)) w of
                (Inl e, w1) \<Rightarrow> (Some e, w1)
              | (Inr b, w1) \<Rightarrow>
                  (case run_turn E (gid g) (db_set_board (addr g) (Some (b_export E b)) w1) of
                     (Inl e, w3) \<Rightarrow> (Some e, w3)
                   | (Inr t, w3) \<Rightarrow>
                       (None, add_reply (started_text @ t)
                                (Some (if m_chat m = gid g then m_chat m else gid g)) w3)))))"

subsection \<open>lines\_next and lines\_repeat\<close>

definition no_active_text :: pystr where
  "no_active_text = ustr ''No active game, send /lines_play to start playing.''"

definition lines_next :: "('b, 'r) engine \<Rightarrow> message \<Rightarrow> 'r world \<Rightarrow> error option \<times> 'r world" where
  "lines_next E m w =
     (case get_game_by_gid (games w) (m_chat m) of
        None \<Rightarrow> (None, add_reply no_active_text None w)
      | Some g \<Rightarrow>
          if truthy (board g) then
            (case call_Board E (Load (board g)) w of
               (Inl e, w1) \<Rightarrow> (Some e, w1)
             | (Inr b, w1) \<Rightarrow>
                 (case call_next E b w1 of
                    (Inl e, w2) \<Rightarrow> (Some e, w2)
                  | (Inr b', w2) \<Rightarrow>
                      (case run_turn E (m_chat m) (db_set_board (addr g) (Some (b_export E b')) w2) of
                         (Inl e, w4) \<Rightarrow> (Some e, w4)
                       | (Inr t, w4) \<Rightarrow> (None, add_reply t None w4))))
          else (None, add_reply no_active_text None w))"

definition lines_repeat :: "('b, 'r) engine \<Rightarrow> message \<Rightarrow> 'r world \<Rightarrow> error option \<times> 'r world" where
  "lines_repeat E m w =
     (case get_game_by_addr (games w) (m_sender_addr m) of
        None \<Rightarrow> (None, add_reply no_active_text None w)
      | Some g \<Rightarrow>
          if truthy (board g) then
            (case run_turn E (gid g) w of
               (Inl e, w1) \<Rightarrow> (Some e, w1)
             | (Inr t, w1) \<Rightarrow>
                 (None, add_reply t (Some (if m_chat m = gid g then m_chat m else gid g)) w1))
          else (None, add_reply no_active_text None w))"

subsection \<open>deltabot\_member\_removed\<close>

text \<open>\<open>me\<close> is the bot's own address, \<open>c\<close> the chat id, \<open>a\<close> the removed contact's address.\<close>

definition deltabot_member_removed :: "pystr \<Rightarrow> int \<Rightarrow> pystr \<Rightarrow> 'r world \<Rightarrow> 'r world" where
  "deltabot_member_removed me c a w =
     (case get_game_by_gid (games w) c of
        None \<Rightarrow> w
      | Some g \<Rightarrow> if a = me \<or> a = addr g then db_delete_game (addr g) w else w)"

section \<open>A small engine for running the handlers on examples\<close>

text \<open>
  A board of the example engine is (carried score, running score, game over); it is
  exported as three code points. The only legal move is \<open>a1b2\<close>, which scores 5;
  a skip scores 7 and ends the game when the random state is odd. The example worlds
  hold one player, with a nick, and at most one game, in chat 7.
\<close>

definition toy_load :: "pystr \<Rightarrow> error + nat \<times> nat \<times> bool" where
  "toy_load s =
     (case s of
        [old, sc, t] \<Rightarrow>
          if t = 0 then Inr (old, sc, False)
          else if t = 1 then Inr (old, sc, True)
          else Inl ValueError
      | _ \<Rightarrow> Inl ValueError)"

definition toy :: "(nat \<times> nat \<times> bool, nat) engine" where
  "toy = \<lparr>
     Board = (\<lambda>a r. case a of
         Fresh \<Rightarrow> (Inr (0, 0, False), r)
       | Carry s \<Rightarrow> (if s < 0 then Inl ValueError else Inr (nat s, 0, False), r)
       | Load None \<Rightarrow> (Inr (0, 0, False), r)
       | Load (Some s) \<Rightarrow> (toy_load s, r)),
     b_move = (\<lambda>(old, sc, t) x r.
         (if x = [97, 49, 98, 50] then Inr (old, sc + 5, t) else Inl ValueError, r)),
     b_next = (\<lambda>(old, sc, t) r. (Inr (old, sc + 7, odd r), r div 2)),
     b_result = (\<lambda>(old, sc, t). if t then 1 else 0),
     b_score = (\<lambda>(old, sc, t). int sc),
     b_old_score = (\<lambda>(old, sc, t). int old),
     b_export = (\<lambda>(old, sc, t). [old, sc, if t then 1 else 0]),
     b_str = (\<lambda>b. []),
     b_next_balls = (\<lambda>b. []) \<rparr>"

definition ex_world :: "pystr option \<Rightarrow> int \<Rightarrow> nat \<Rightarrow> nat world" where
  "ex_world b s r =
     \<lparr>games = [\<lparr>addr = ustr ''ann@example.org'', gid = 7, board = b, score = s\<rparr>],
      nicks = [(ustr ''ann@example.org'', ustr ''Ann'')], replies = [], trace = [], rng = r\<rparr>"

definition ex_start :: "nat world" where
  "ex_start = \<lparr>games = [], nicks = [(ustr ''ann@example.org'', ustr ''Ann'')], replies = [],
     trace = [], rng = 0\<rparr>"

definition ex_msg :: "pystr \<Rightarrow> message" where
  "ex_msg t = \<lparr>m_text = t, m_chat = 7, m_sender_addr = ustr ''ann@example.org'',
     m_sender_name = ustr ''Ann''\<rparr>"

text \<open>
  For scores too large to be a code point: an engine all of whose boards are over, with
  the given carried and running scores.
\<close>

definition over_engine :: "int \<Rightarrow> int \<Rightarrow> (unit, nat) engine" where
  "over_engine old sc = \<lparr>
     Board = (\<lambda>a r. (Inr (), r)),
     b_move = (\<lambda>b x r. (Inl ValueError, r)),
     b_next = (\<lambda>b r. (Inr (), r)),
     b_result = (\<lambda>b. 1),
     b_score = (\<lambda>b. sc),
     b_old_score = (\<lambda>b. old),
     b_export = (\<lambda>b. ustr ''x''),
     b_str = (\<lambda>b. []),
     b_next_balls = (\<lambda>b. []) \<rparr>"

section \<open>The serialized state (game.py)\<close>

text \<open>
  Modelled from the spec: \<open>Board.export\<close> and the reconstruction \<open>Board(serialized)\<close> are
  in game.py, which is not among the sources. The spec (section 6) says what the string
  encodes, in a fixed layout: the cells of the N x N grid in row-major order, each empty
  or one of the fixed colour symbols; the current score; the carried-over prior score;
  the lookahead batch, a fixed-length sequence of colour symbols. N, the batch length and
  the colours with their symbols are parameters (a \<open>layout\<close>); the spec does not say how
  the two integers are set apart, and the model writes each in decimal, followed by a
  line feed. A string that does not have this shape is refused with \<open>CorruptState\<close>.
\<close>

datatype import_error = CorruptState

record 'c layout =
  grid_dim :: nat
  batch_len :: nat
  colours :: "'c list"
  symbol_of :: "'c \<Rightarrow> nat"
  empty_symbol :: nat

record 'c game_state =
  st_grid :: "'c option list"
  st_score :: nat
  st_old_score :: nat
  st_next_balls :: "'c list"

definition cell_symbol :: "'c layout \<Rightarrow> 'c option \<Rightarrow> nat" where
  "cell_symbol L c = (case c of None \<Rightarrow> empty_symbol L | Some x \<Rightarrow> symbol_of L x)"

definition symbol_colour :: "'c layout \<Rightarrow> nat \<Rightarrow> 'c option" where
  "symbol_colour L x = find (\<lambda>c. symbol_of L c = x) (colours L)"

definition symbol_cell :: "'c layout \<Rightarrow> nat \<Rightarrow> 'c option option" where
  "symbol_cell L x = (if x = empty_symbol L then Some None else map_option Some (symbol_colour L x))"

definition parse_nat :: "pystr \<Rightarrow> nat option" where
  "parse_nat ds =
     (if ds \<noteq> [] \<and> list_all (\<lambda>d. 48 \<le> d \<and> d \<le> 57) ds
      then Some (foldl (\<lambda>a d. 10 * a + (d - 48)) 0 ds)
      else None)"

definition export_state :: "'c layout \<Rightarrow> 'c game_state \<Rightarrow> pystr" where
  "export_state L s =
     map (cell_symbol L) (st_grid s) @ str_nat (st_score s) @ [10]
     @ str_nat (st_old_score s) @ [10] @ map (symbol_of L) (st_next_balls s)"

definition import_state :: "'c layout \<Rightarrow> pystr \<Rightarrow> import_error + 'c game_state" where
  "import_state L str =
     (let cells = take (grid_dim L * grid_dim L) str;
          rest = drop (grid_dim L * grid_dim L) str;
          sc = takeWhile (\<lambda>c. c \<noteq> 10) rest;
          old = takeWhile (\<lambda>c. c \<noteq> 10) (drop 1 (dropWhile (\<lambda>c. c \<noteq> 10) rest));
          balls = drop 1 (dropWhile (\<lambda>c. c \<noteq> 10) (drop 1 (dropWhile (\<lambda>c. c \<noteq> 10) rest)))
      in if length cells \<noteq> grid_dim L * grid_dim L \<or> length balls \<noteq> batch_len L
         then Inl CorruptState
         else
           (case (those (map (symbol_cell L) cells), parse_nat sc, parse_nat old,
                  those (map (symbol_colour L) balls)) of
              (Some g, Some a, Some b, Some nb) \<Rightarrow>
                Inr \<lparr>st_grid = g, st_score = a, st_old_score = b, st_next_balls = nb\<rparr>
            | _ \<Rightarrow> Inl CorruptState))"

text \<open>
  The data model's invariants: the symbols tell the colours and the empty cell apart, the
  grid has N x N cells, the batch its fixed length, and only colours of the enumeration
  occur. Every state the engine can reach has them.
\<close>

definition wf_layout :: "'c layout \<Rightarrow> bool" where
  "wf_layout L = (distinct (map (symbol_of L) (colours L))
     \<and> empty_symbol L \<notin> set (map (symbol_of L) (colours L)))"

definition wf_state :: "'c layout \<Rightarrow> 'c game_state \<Rightarrow> bool" where
  "wf_state L s = (length (st_grid s) = grid_dim L * grid_dim L
     \<and> length (st_next_balls s) = batch_len L
     \<and> list_all (\<lambda>c. case c of None \<Rightarrow> True | Some x \<Rightarrow> x \<in> set (colours L)) (st_grid s)
     \<and> list_all (\<lambda>x. x \<in> set (colours L)) (st_next_balls s))"

text \<open>The standard game: a 9 x 9 grid, batches of three, seven colours written 1 to 7.\<close>

definition std_layout :: "nat layout" where
  "std_layout = \<lparr>grid_dim = 9, batch_len = 3, colours = [1, 2, 3, 4, 5, 6, 7],
     symbol_of = (\<lambda>c. 48 + c), empty_symbol = 48\<rparr>"

definition ex_state :: "nat game_state" where
  "ex_state = \<lparr>st_grid = replicate 78 None @ [Some 1, Some 7, Some 3], st_score = 50,
     st_old_score = 42, st_next_balls = [4, 5, 6]\<rparr>"

section \<open>Notions used in the statements\<close>

text \<open>
  A character that is a letter (\<open>isalpha\<close>) or a digit (\<open>isdigit\<close>); every ASCII
  alphanumeric character is one.
\<close>

definition is_letter_or_digit :: "ucd \<Rightarrow> nat \<Rightarrow> bool" where
  "is_letter_or_digit U c = (isalpha_cp U c \<or> isdigit_cp U c)"

text \<open>
  What a handler added to the trace, and a list of events in which no \<open>set_game\<close> stores a
  board (the \<open>set_game\<close> of \<open>_run_turn\<close> stores \<open>None\<close>).
\<close>

definition added :: "'r world \<Rightarrow> 'r world \<Rightarrow> event list" where
  "added w w' = drop (length (trace w)) (trace w')"

definition board_kept :: "event list \<Rightarrow> bool" where
  "board_kept evs = (\<forall>a x s. Set_game a (Some x) s \<notin> set evs)"

text \<open>
  Modelled from the spec: what the spec says of the engine, whose code (game.py) is not
  among the sources. In the order of the conjuncts: a board reconstructed from its
  exported string is the same board (round-trip); \<open>move\<close> and \<open>next\<close> keep the carried
  score and never lower the running score (score monotonicity); \<open>Board(old_score=S)\<close>
  exposes \<open>old_score == S\<close>; \<open>Board()\<close> has score 0; a board constructed without a stored
  string is in progress, not over.
\<close>

definition sane_engine :: "('b, 'r) engine \<Rightarrow> bool" where
  "sane_engine E =
     ((\<forall>b r. fst (Board E (Load (Some (b_export E b))) r) = Inr b)
    \<and> (\<forall>b t r b'. fst (b_move E b t r) = Inr b'
          \<longrightarrow> b_old_score E b' = b_old_score E b \<and> b_score E b \<le> b_score E b')
    \<and> (\<forall>b r b'. fst (b_next E b r) = Inr b'
          \<longrightarrow> b_old_score E b' = b_old_score E b \<and> b_score E b \<le> b_score E b')
    \<and> (\<forall>s r b. fst (Board E (Carry s) r) = Inr b \<longrightarrow> b_old_score E b = s)
    \<and> (\<forall>r b. fst (Board E Fresh r) = Inr b \<longrightarrow> b_score E b = 0)
    \<and> (\<forall>r b. fst (Board E (Load None) r) = Inr b \<longrightarrow> b_result E b \<noteq> 1))"

text \<open>
  The invariant of the games table: addresses are unique, and the score stored beside an
  exported board is at most the larger of that board's carried and running scores.
\<close>

definition row_ok :: "('b, 'r) engine \<Rightarrow> game \<Rightarrow> bool" where
  "row_ok E g =
     (board g = None
      \<or> (\<exists>b. board g = Some (b_export E b) \<and> score g \<le> max (b_old_score E b) (b_score E b)))"

definition db_ok :: "('b, 'r) engine \<Rightarrow> game list \<Rightarrow> bool" where
  "db_ok E gs = (distinct (map addr gs) \<and> list_all (row_ok E) gs)"

text \<open>The score stored for a player, and a table in which no stored score was lost or lowered.\<close>

definition stored_score :: "game list \<Rightarrow> pystr \<Rightarrow> int option" where
  "stored_score gs a = map_option score (get_game_by_addr gs a)"

definition grows :: "game list \<Rightarrow> game list \<Rightarrow> bool" where
  "grows gs gs' =
     (\<forall>a s. stored_score gs a = Some s \<longrightarrow> (\<exists>s'. stored_score gs' a = Some s' \<and> s \<le> s'))"

text \<open>
  The requests the bot serves on the games table, and the worlds it can reach from an
  empty table. What writes the world after a handler has raised stays written, so a
  request leads to the handler's world whether it raised or not. \<open>lines_nick\<close> and
  \<open>lines_top\<close> contain no call that writes to the games table: the rule \<open>other\<close>
  stands for them, and for anything else that leaves the table as it is.
\<close>

datatype request =
    Filter_messages message
  | Lines_play int message
  | Lines_next message
  | Lines_repeat message
  | Member_removed pystr int pystr

definition handle :: "ucd \<Rightarrow> ('b, 'r) engine \<Rightarrow> request \<Rightarrow> 'r world \<Rightarrow> 'r world" where
  "handle U E rq w =
     (case rq of
        Filter_messages m \<Rightarrow> snd (filter_messages U E m w)
      | Lines_play new_gid m \<Rightarrow> snd (lines_play E new_gid m w)
      | Lines_next m \<Rightarrow> snd (lines_next E m w)
      | Lines_repeat m \<Rightarrow> snd (lines_repeat E m w)
      | Member_removed me c a \<Rightarrow> deltabot_member_removed me c a w)"

inductive reachable :: "ucd \<Rightarrow> ('b, 'r) engine \<Rightarrow> 'r world \<Rightarrow> bool" for U E where
  start: "games w = [] \<Longrightarrow> reachable U E w"
| step: "reachable U E w \<Longrightarrow> reachable U E (handle U E rq w)"
| other: "reachable U E w \<Longrightarrow> games w' = games w \<Longrightarrow> reachable U E w'"

section \<open>Evaluation and basic facts\<close>

subsection \<open>The float quotient\<close>

lemma bitlen_le: "n < 2 ^ m \<Longrightarrow> bitlen n \<le> m"
proof (induction m arbitrary: n)
  case 0
  then show ?case by (simp add: bitlen.simps)
next
  case (Suc m)
  show ?case
  proof (cases "n = 0")
    case True
    then show ?thesis by (simp add: bitlen.simps)
  next
    case False
    from Suc.prems have "n div 2 < 2 ^ m" by simp
    then have "bitlen (n div 2) \<le> m" by (rule Suc.IH)
    then show ?thesis using False by (subst bitlen.simps) simp
  qed
qed

lemma bitlen_eq: "2 ^ m \<le> n \<Longrightarrow> n < 2 ^ Suc m \<Longrightarrow> bitlen n = Suc m"
proof (induction m arbitrary: n)
  case 0
  then have "n = Suc 0" by simp
  then show ?case by (simp add: bitlen.simps [of "Suc 0"] bitlen.simps [of 0])
next
  case (Suc m)
  from Suc.prems have "2 ^ m \<le> n div 2" and "n div 2 < 2 ^ Suc m" by simp_all
  then have "bitlen (n div 2) = Suc m" by (rule Suc.IH)
  moreover from Suc.prems have "n \<noteq> 0" by auto
  ultimately show ?case by (subst bitlen.simps) simp
qed

lemma round_nat53_small: "n < 2 ^ 53 \<Longrightarrow> round_nat53 n = n"
  using bitlen_le [of n 53] by (simp add: round_nat53_def Let_def)

lemma round53_small: "\<bar>k\<bar> < 2 ^ 53 \<Longrightarrow> round53 k = k"
proof -
  assume a: "\<bar>k\<bar> < 2 ^ 53"
  then have "nat \<bar>k\<bar> < 2 ^ 53" by (simp add: nat_less_iff)
  then have "round_nat53 (nat \<bar>k\<bar>) = nat \<bar>k\<bar>" by (rule round_nat53_small)
  then show ?thesis by (auto simp: round53_def abs_if split: if_splits)
qed

text \<open>Below \<open>2 ^ 53\<close> the float quotient is the exact one.\<close>

lemma float_half_small: "\<bar>k\<bar> < 2 ^ 53 \<Longrightarrow> float_half k = real_of_int k / 2"
  by (simp add: float_half_def round53_small)

text \<open>
  \<open>2 ^ 54 + 6\<close> has 55 bits; its half \<open>2 ^ 53 + 3\<close> lies midway between the floats
  \<open>2 ^ 53 + 2\<close> and \<open>2 ^ 53 + 4\<close>, and the tie goes to the latter.
\<close>

lemma float_half_tie: "float_half 18014398509481990 = 9007199254740996"
proof -
  have "bitlen 18014398509481990 = 55"
    using bitlen_eq [of 54 18014398509481990] by simp
  then have "round53 18014398509481990 = 18014398509481992"
    by (simp add: round53_def round_nat53_def Let_def)
  then show ?thesis by (simp add: float_half_def)
qed

lemmas world_ops = call_Board_def call_move_def call_next_def db_set_game_def db_set_board_def
  db_add_game_def db_delete_game_def add_reply_def

lemmas eval_defs = filter_messages_def str_isalnum_def str_isalpha_def str_isdigit_def
  isalnum_cp_def is_letter_or_digit_def latin1_def
  get_game_by_gid_def get_game_by_addr_def get_nick_def try_move_def call_Board_def call_move_def
  call_next_def toy_def toy_load_def run_turn_def db_set_game_def db_set_board_def db_add_game_def
  set_game_def set_board_def add_game_def add_reply_def final_score_def lines_next_def
  lines_play_def lines_repeat_def ex_world_def ex_msg_def float_half_small

subsection \<open>What a handler adds to the trace\<close>

lemma run_turn_trace:
  "\<exists>evs. trace (snd (run_turn E i w)) = trace w @ evs \<and> (\<forall>x. Move_call x \<notin> set evs)"
  by (auto simp: run_turn_def world_ops split: option.splits prod.splits sum.splits)

lemma try_move_trace:
  "\<exists>evs. trace (snd (try_move E m g w)) = trace w @ evs
     \<and> (\<forall>x. Move_call x \<in> set evs \<longrightarrow> x = m_text m)"
proof (cases "call_Board E (Load (board g)) w")
  case (Pair res w1)
  have t1: "trace w1 = trace w @ [Board_call (Load (board g))]"
    using Pair by (auto simp: call_Board_def split: prod.splits)
  show ?thesis
  proof (cases res)
    case (Inl e)
    then show ?thesis using Pair t1 by (simp add: try_move_def)
  next
    case (Inr b)
    obtain res' w2 where M: "call_move E b (m_text m) w1 = (res', w2)"
      by (cases "call_move E b (m_text m) w1")
    have t2: "trace w2 = trace w1 @ [Move_call (m_text m)]"
      using M by (auto simp: call_move_def split: prod.splits)
    show ?thesis
    proof (cases res')
      case (Inl e)
      then show ?thesis using Pair Inr M t1 t2 by (simp add: try_move_def)
    next
      case mv: (Inr b')
      define w3 where "w3 = (if b_score E b' > score g
          then db_set_game (addr g) (Some (b_export E b')) (b_score E b') w2
          else db_set_board (addr g) (Some (b_export E b')) w2)"
      obtain evs where evs: "trace (snd (run_turn E (m_chat m) w3)) = trace w3 @ evs"
        "\<forall>x. Move_call x \<notin> set evs"
        using run_turn_trace by blast
      have t3: "\<exists>ev. trace w3 = trace w @ [Board_call (Load (board g)), Move_call (m_text m), ev]
          \<and> (\<forall>x. ev \<noteq> Move_call x)"
        using t1 t2 by (simp add: w3_def db_set_game_def db_set_board_def)
      have "trace (snd (try_move E m g w)) = trace (snd (run_turn E (m_chat m) w3))"
        using Pair Inr M mv
        by (simp add: try_move_def w3_def add_reply_def split: prod.splits sum.splits)
      then show ?thesis using evs t3 by auto
    qed
  qed
qed

lemma filter_messages_ignored:
  "length (m_text m) \<noteq> 4 \<or> \<not> str_isalnum U (m_text m) \<or> str_isalpha U (m_text m)
     \<or> str_isdigit U (m_text m) \<Longrightarrow> filter_messages U E m w = (None, w)"
  by (simp add: filter_messages_def)

lemma filter_messages_trace_cases:
  "filter_messages U E m w = (None, w)
   \<or> (\<exists>g. trace (snd (filter_messages U E m w)) = trace (snd (try_move E m g w)))"
proof (cases "get_game_by_gid (games w) (m_chat m)")
  case None
  then show ?thesis by (simp add: filter_messages_def)
next
  case (Some g)
  obtain x w' where tm: "try_move E m g w = (x, w')" by (cases "try_move E m g w")
  have "filter_messages U E m w = (None, w) \<or> trace (snd (filter_messages U E m w)) = trace w'"
    using Some tm
    by (simp add: filter_messages_def add_reply_def split: option.splits error.splits)
  with tm show ?thesis by (metis snd_conv)
qed

lemma filter_messages_trace:
  "\<exists>evs. trace (snd (filter_messages U E m w)) = trace w @ evs
     \<and> (\<forall>x. Move_call x \<in> set evs \<longrightarrow> x = m_text m)"
  using filter_messages_trace_cases [of U E m w] try_move_trace [of E m _ w]
  by (metis append_Nil2 empty_iff list.set(1) snd_conv)

lemma mixed_has_both:
  assumes "str_isalnum U t" "\<not> str_isalpha U t" "\<not> str_isdigit U t"
    and "list_all (is_letter_or_digit U) t"
  shows "list_ex (isalpha_cp U) t \<and> list_ex (isdigit_cp U) t"
  using assms
  by (auto simp: str_isalnum_def str_isalpha_def str_isdigit_def is_letter_or_digit_def
      list_all_iff list_ex_iff)

section \<open>The move-text filter of filter\_messages\<close>

text \<open>
  C3, as the spec states it: a text is forwarded to \<open>move\<close> only if it has four
  characters, is alphanumeric and holds both letters and digits. The code does not
  do that: it tests \<open>not isalpha()\<close> and \<open>not isdigit()\<close>, and \<open>isalnum()\<close> also accepts
  numeric characters that are neither letters nor digits. The text of four times
  U+00BC (the fraction one quarter) has no letter and no digit, and is forwarded.
\<close>

theorem fractions_pass_the_filter:
  "length [188, 188, 188, 188] = (4::nat)
   \<and> str_isalnum latin1 [188, 188, 188, 188]
   \<and> \<not> list_ex (isalpha_cp latin1) [188, 188, 188, 188]
   \<and> \<not> list_ex (isdigit_cp latin1) [188, 188, 188, 188]
   \<and> trace (snd (filter_messages latin1 toy (ex_msg [188, 188, 188, 188])
        (ex_world (Some [0, 0, 0]) 0 0)))
       = [Board_call (Load (Some [0, 0, 0])), Move_call [188, 188, 188, 188]]"
  by (simp add: eval_defs)

text \<open>
  C3, amended: a text that has not four characters, is not alphanumeric, is all
  letters or is all digits is ignored: the handler returns with the world as it was (no
  constructor call, no reply, no database write). A text is forwarded to \<open>move\<close>
  only if it has four characters, is alphanumeric, is not all letters and is not all
  digits; where every character of such a text is a letter or a digit (every ASCII
  text), it holds at least one letter and at least one digit.
\<close>

theorem filter_messages_prefilter:
  "(length (m_text m) \<noteq> 4 \<or> \<not> str_isalnum U (m_text m) \<or> str_isalpha U (m_text m)
      \<or> str_isdigit U (m_text m) \<longrightarrow> filter_messages U E m w = (None, w))
   \<and> (Move_call x \<in> set (added w (snd (filter_messages U E m w)))
      \<longrightarrow> x = m_text m \<and> length (m_text m) = 4 \<and> str_isalnum U (m_text m)
          \<and> \<not> str_isalpha U (m_text m) \<and> \<not> str_isdigit U (m_text m)
          \<and> (list_all (is_letter_or_digit U) (m_text m)
               \<longrightarrow> list_ex (isalpha_cp U) (m_text m) \<and> list_ex (isdigit_cp U) (m_text m)))"
proof (intro conjI impI)
  assume "length (m_text m) \<noteq> 4 \<or> \<not> str_isalnum U (m_text m) \<or> str_isalpha U (m_text m)
      \<or> str_isdigit U (m_text m)"
  then show "filter_messages U E m w = (None, w)" by (rule filter_messages_ignored)
next
  assume fwd: "Move_call x \<in> set (added w (snd (filter_messages U E m w)))"
  obtain evs where evs: "trace (snd (filter_messages U E m w)) = trace w @ evs"
    "\<forall>x. Move_call x \<in> set evs \<longrightarrow> x = m_text m"
    using filter_messages_trace by blast
  from fwd evs show "x = m_text m" by (simp add: added_def)
  have pass: "\<not> (length (m_text m) \<noteq> 4 \<or> \<not> str_isalnum U (m_text m) \<or> str_isalpha U (m_text m)
      \<or> str_isdigit U (m_text m))"
  proof
    assume "length (m_text m) \<noteq> 4 \<or> \<not> str_isalnum U (m_text m) \<or> str_isalpha U (m_text m)
      \<or> str_isdigit U (m_text m)"
    then have "filter_messages U E m w = (None, w)" by (rule filter_messages_ignored)
    with fwd show False by (simp add: added_def)
  qed
  then show "length (m_text m) = 4" "str_isalnum U (m_text m)" "\<not> str_isalpha U (m_text m)"
    "\<not> str_isdigit U (m_text m)" by auto
  {
    assume "list_all (is_letter_or_digit U) (m_text m)"
    with pass show "list_ex (isalpha_cp U) (m_text m)" "list_ex (isdigit_cp U) (m_text m)"
      using mixed_has_both [of U "m_text m"] by auto
  }
qed

theorem filter_messages_prefilter_witness:
  "str_isdigit latin1 (m_text (ex_msg (ustr ''1234'')))
   \<and> filter_messages latin1 toy (ex_msg (ustr ''1234'')) (ex_world (Some [0, 0, 0]) 0 0)
       = (None, ex_world (Some [0, 0, 0]) 0 0)
   \<and> Move_call (ustr ''a1b2'') \<in> set (added (ex_world (Some [0, 0, 0]) 0 0)
        (snd (filter_messages latin1 toy (ex_msg (ustr ''a1b2''))
           (ex_world (Some [0, 0, 0]) 0 0))))
   \<and> list_all (is_letter_or_digit latin1) (m_text (ex_msg (ustr ''a1b2'')))
   \<and> list_ex (isalpha_cp latin1) (m_text (ex_msg (ustr ''a1b2'')))
   \<and> list_ex (isdigit_cp latin1) (m_text (ex_msg (ustr ''a1b2'')))"
  using filter_messages_prefilter [of "ex_msg (ustr ''1234'')" latin1 toy
      "ex_world (Some [0, 0, 0]) 0 0"]
    filter_messages_prefilter [of "ex_msg (ustr ''a1b2'')" latin1 toy
      "ex_world (Some [0, 0, 0]) 0 0" "ustr ''a1b2''"]
  by (simp add: eval_defs ustr_def added_def)

lemma find_map_same:
  "(\<And>x. P (f x) = P x) \<Longrightarrow> find P (map f xs) = map_option f (find P xs)"
  by (induction xs) auto

lemma get_game_by_gid_set_game:
  "get_game_by_gid (set_game gs a b s) i
     = map_option (\<lambda>g. if addr g = a then g\<lparr>board := b, score := s\<rparr> else g) (get_game_by_gid gs i)"
  unfolding get_game_by_gid_def set_game_def by (rule find_map_same) simp

lemma get_game_by_gid_set_board:
  "get_game_by_gid (set_board gs a b) i
     = map_option (\<lambda>g. if addr g = a then g\<lparr>board := b\<rparr> else g) (get_game_by_gid gs i)"
  unfolding get_game_by_gid_def set_board_def by (rule find_map_same) simp

lemma map_score_set_board: "map score (set_board gs a b) = map score gs"
  by (simp add: set_board_def comp_def cong: map_cong)

section \<open>Rejected moves\<close>

text \<open>
  C2: for a stored game with an active board and a text that passes the filter, if the
  constructor raises ValueError on the stored string, or \<open>move\<close> raises it on the
  text, then \<open>filter_messages\<close> writes nothing to the database (no \<open>set_game\<close>, no
  \<open>set_board\<close>: the trace gains only the engine calls and the rows are as before) and
  replies with U+274C followed by " Invalid move!".
\<close>

theorem filter_messages_invalid_move:
  assumes "length (m_text m) = 4" and "str_isalnum U (m_text m)"
    and "\<not> str_isalpha U (m_text m)" and "\<not> str_isdigit U (m_text m)"
    and "get_game_by_gid (games w) (m_chat m) = Some g" and "truthy (board g)"
    and "Board E (Load (board g)) (rng w) = (res, ra)"
    and "(res = Inl ValueError \<and> rb = ra)
       \<or> (\<exists>b. res = Inr b \<and> b_move E b (m_text m) ra = (Inl ValueError, rb))"
  shows "filter_messages U E m w =
      (None, w\<lparr>replies := replies w @ [\<lparr>r_text = [10060] @ ustr '' Invalid move!'', r_chat = None\<rparr>],
               trace := trace w @ Board_call (Load (board g))
                  # (case res of Inl e \<Rightarrow> [] | Inr b \<Rightarrow> [Move_call (m_text m)]),
               rng := rb\<rparr>)
     \<and> games (snd (filter_messages U E m w)) = games w"
  using assms
  by (auto simp: filter_messages_def try_move_def call_Board_def call_move_def add_reply_def
      invalid_move_text_def)

theorem filter_messages_invalid_move_witness:
  "filter_messages latin1 toy (ex_msg (ustr ''z9z9'')) (ex_world (Some [0, 0, 0]) 0 0) =
      (None, ex_world (Some [0, 0, 0]) 0 0
         \<lparr>replies := [\<lparr>r_text = [10060] @ ustr '' Invalid move!'', r_chat = None\<rparr>],
          trace := [Board_call (Load (Some [0, 0, 0])), Move_call (ustr ''z9z9'')]\<rparr>)
   \<and> filter_messages latin1 toy (ex_msg (ustr ''a1b2'')) (ex_world (Some [9]) 0 0) =
      (None, ex_world (Some [9]) 0 0
         \<lparr>replies := [\<lparr>r_text = [10060] @ ustr '' Invalid move!'', r_chat = None\<rparr>],
          trace := [Board_call (Load (Some [9]))]\<rparr>)"
  using filter_messages_invalid_move [of "ex_msg (ustr ''z9z9'')" latin1 "ex_world (Some [0, 0, 0]) 0 0"
      "\<lparr>addr = ustr ''ann@example.org'', gid = 7, board = Some [0, 0, 0], score = 0\<rparr>" toy
      "Inr (0, 0, False)" 0 0]
    filter_messages_invalid_move [of "ex_msg (ustr ''a1b2'')" latin1 "ex_world (Some [9]) 0 0"
      "\<lparr>addr = ustr ''ann@example.org'', gid = 7, board = Some [9], score = 0\<rparr>" toy
      "Inl ValueError" 0 0]
  by (simp add: eval_defs ustr_def)

section \<open>The absent board\<close>

text \<open>
  C4: on a row whose board is \<open>None\<close> no move is attempted: \<open>filter_messages\<close> returns
  with the world as it was (no constructor call, no reply), and \<open>lines_next\<close> does not
  call \<open>next\<close> but replies "No active game, send /lines_play to start playing.". A
  stored string on which the constructor raises is another matter: \<open>lines_next\<close> calls
  the constructor and the exception leaves the handler.
\<close>

theorem absent_board_is_no_active_game:
  assumes "get_game_by_gid (games w) (m_chat m) = Some g" and "board g = None"
  shows "filter_messages U E m w = (None, w)
     \<and> lines_next E m w =
         (None, w\<lparr>replies := replies w @
            [\<lparr>r_text = ustr ''No active game, send /lines_play to start playing.'', r_chat = None\<rparr>]\<rparr>)
     \<and> (get_game_by_gid (games w') (m_chat m) = Some g' \<and> board g' = Some s \<and> s \<noteq> []
          \<and> Board E (Load (Some s)) (rng w') = (Inl e, r')
        \<longrightarrow> lines_next E m w' =
              (Some e, w'\<lparr>trace := trace w' @ [Board_call (Load (Some s))], rng := r'\<rparr>))"
  using assms
  by (auto simp: filter_messages_def lines_next_def add_reply_def no_active_text_def call_Board_def)

theorem absent_board_is_no_active_game_witness:
  "filter_messages latin1 toy (ex_msg (ustr ''a1b2'')) (ex_world None 42 0) = (None, ex_world None 42 0)
   \<and> lines_next toy (ex_msg (ustr ''a1b2'')) (ex_world None 42 0) =
       (None, ex_world None 42 0\<lparr>replies :=
          [\<lparr>r_text = ustr ''No active game, send /lines_play to start playing.'', r_chat = None\<rparr>]\<rparr>)
   \<and> lines_next toy (ex_msg (ustr ''a1b2'')) (ex_world (Some [9]) 42 0) =
       (Some ValueError, ex_world (Some [9]) 42 0\<lparr>trace := [Board_call (Load (Some [9]))]\<rparr>)"
  using absent_board_is_no_active_game [where w = "ex_world None 42 0"
      and m = "ex_msg (ustr ''a1b2'')" and U = latin1 and E = toy
      and g = "\<lparr>addr = ustr ''ann@example.org'', gid = 7, board = None, score = 42\<rparr>"
      and w' = "ex_world (Some [9]) 42 0"
      and g' = "\<lparr>addr = ustr ''ann@example.org'', gid = 7, board = Some [9], score = 42\<rparr>"
      and s = "[9]" and e = ValueError and r' = 0]
  by (simp add: eval_defs no_active_text_def)

section \<open>Game over in \_run\_turn\<close>

text \<open>
  C5: when the board of the group's game reports \<open>result() == 1\<close>, \<open>_run_turn\<close> stores
  \<open>None\<close> as the player's board, by \<open>set_game(addr, None, score)\<close> when the final score
  exceeds the carried one and by \<open>set_board(addr, None)\<close> otherwise; afterwards the
  group's game has no active board.
\<close>

theorem run_turn_game_over_clears_board:
  assumes "get_game_by_gid (games w) i = Some g"
    and "Board E (Load (board g)) (rng w) = (Inr b, r')"
    and "b_result E b = 1"
  shows "snd (run_turn E i w) =
      (if final_score E b > b_old_score E b
       then db_set_game (addr g) None (final_score E b)
              (w\<lparr>trace := trace w @ [Board_call (Load (board g))], rng := r'\<rparr>)
       else db_set_board (addr g) None
              (w\<lparr>trace := trace w @ [Board_call (Load (board g))], rng := r'\<rparr>))
     \<and> list_all (\<lambda>r. addr r = addr g \<longrightarrow> board r = None) (games (snd (run_turn E i w)))
     \<and> map_option board (get_game_by_gid (games (snd (run_turn E i w))) i) = Some None"
proof (intro conjI)
  show eq: "snd (run_turn E i w) =
      (if final_score E b > b_old_score E b
       then db_set_game (addr g) None (final_score E b)
              (w\<lparr>trace := trace w @ [Board_call (Load (board g))], rng := r'\<rparr>)
       else db_set_board (addr g) None
              (w\<lparr>trace := trace w @ [Board_call (Load (board g))], rng := r'\<rparr>))"
    using assms by (simp add: run_turn_def call_Board_def)
  show "list_all (\<lambda>r. addr r = addr g \<longrightarrow> board r = None) (games (snd (run_turn E i w)))"
    unfolding eq
    by (auto simp: db_set_game_def db_set_board_def set_game_def set_board_def list_all_iff)
  show "map_option board (get_game_by_gid (games (snd (run_turn E i w))) i) = Some None"
    unfolding eq using assms(1)
    by (simp add: db_set_game_def db_set_board_def get_game_by_gid_set_game
        get_game_by_gid_set_board)
qed

theorem run_turn_game_over_clears_board_witness:
  "b_result toy (42, 10, True) = 1
   \<and> games (snd (run_turn toy 7 (ex_world (Some [42, 10, 1]) 42 0)))
       = [\<lparr>addr = ustr ''ann@example.org'', gid = 7, board = None, score = 42\<rparr>]
   \<and> trace (snd (run_turn toy 7 (ex_world (Some [42, 10, 1]) 42 0)))
       = [Board_call (Load (Some [42, 10, 1])), Set_board (ustr ''ann@example.org'') None]"
  using run_turn_game_over_clears_board [where w = "ex_world (Some [42, 10, 1]) 42 0" and i = 7
      and E = toy and b = "(42, 10, True)" and r' = 0
      and g = "\<lparr>addr = ustr ''ann@example.org'', gid = 7, board = Some [42, 10, 1], score = 42\<rparr>"]
  by (simp add: eval_defs)

text \<open>
  C7: when the game is over and the running score exceeds the carried \<open>old_score\<close>
  (as 50 exceeds 42), \<open>_run_turn\<close> records exactly the running score with
  \<open>set_game\<close> and returns the "New High Score" message with that score.
\<close>

theorem run_turn_new_high_score:
  assumes "get_game_by_gid (games w) i = Some g"
    and "Board E (Load (board g)) (rng w) = (Inr b, r')"
    and "b_result E b = 1"
    and "b_score E b > b_old_score E b"
  shows "run_turn E i w =
      (Inr ([127942] @ ustr '' Game over'' @ [10] @ ustr ''New High Score: ''
            @ str_int (b_score E b) @ [10, 128202] @ ustr '' /lines_top'' @ [10, 10] @ b_str E b
            @ [10, 9654, 65039] @ ustr '' Play again?  /lines_play''),
       w\<lparr>games := set_game (games w) (addr g) None (b_score E b),
         trace := trace w @ [Board_call (Load (board g)), Set_game (addr g) None (b_score E b)],
         rng := r'\<rparr>)"
  using assms
  by (simp add: run_turn_def call_Board_def db_set_game_def final_score_def high_score_text_def)

theorem run_turn_new_high_score_witness:
  "b_old_score toy (42, 50, True) = 42 \<and> b_score toy (42, 50, True) = 50
   \<and> b_result toy (42, 50, True) = 1
   \<and> run_turn toy 7 (ex_world (Some [42, 50, 1]) 42 0) =
      (Inr ([127942] @ ustr '' Game over'' @ [10] @ ustr ''New High Score: ''
            @ ustr ''50'' @ [10, 128202] @ ustr '' /lines_top'' @ [10, 10]
            @ [10, 9654, 65039] @ ustr '' Play again?  /lines_play''),
       ex_world None 50 0\<lparr>trace := [Board_call (Load (Some [42, 50, 1])),
          Set_game (ustr ''ann@example.org'') None 50]\<rparr>)"
  using run_turn_new_high_score [where w = "ex_world (Some [42, 50, 1]) 42 0" and i = 7
      and E = toy and b = "(42, 50, True)" and r' = 0
      and g = "\<lparr>addr = ustr ''ann@example.org'', gid = 7, board = Some [42, 50, 1], score = 42\<rparr>"]
  by (simp add: eval_defs ustr_def str_int_def str_nat.simps high_score_text_def)

text \<open>
  C9, as the spec states it: whenever the game is over and the running score does not
  exceed \<open>old_score\<close> but is strictly greater than half of it, the final score is
  \<open>old_score + 1\<close>. The code compares with the float \<open>old_score / 2\<close>. With
  \<open>old_score\<close> \<open>2 ^ 54 + 6\<close> and score \<open>2 ^ 53 + 4\<close>, the score is above the half
  \<open>2 ^ 53 + 3\<close>, but the float quotient is \<open>2 ^ 53 + 4\<close>: there is no bump, the final
  score is the running score, and \<open>_run_turn\<close> calls \<open>set_board\<close>.
\<close>

theorem float_quotient_skips_the_bump:
  "b_result (over_engine 18014398509481990 9007199254740996) () = 1
   \<and> b_old_score (over_engine 18014398509481990 9007199254740996) ()
       \<ge> b_score (over_engine 18014398509481990 9007199254740996) ()
   \<and> real_of_int (b_score (over_engine 18014398509481990 9007199254740996) ())
       > real_of_int (b_old_score (over_engine 18014398509481990 9007199254740996) ()) / 2
   \<and> final_score (over_engine 18014398509481990 9007199254740996) () = 9007199254740996
   \<and> games (snd (run_turn (over_engine 18014398509481990 9007199254740996) 7
        (ex_world (Some (ustr ''x'')) 18014398509481990 0)))
       = [\<lparr>addr = ustr ''ann@example.org'', gid = 7, board = None, score = 18014398509481990\<rparr>]
   \<and> trace (snd (run_turn (over_engine 18014398509481990 9007199254740996) 7
        (ex_world (Some (ustr ''x'')) 18014398509481990 0)))
       = [Board_call (Load (Some (ustr ''x''))), Set_board (ustr ''ann@example.org'') None]"
  by (simp add: over_engine_def final_score_def float_half_tie run_turn_def call_Board_def
      get_game_by_gid_def ex_world_def db_set_board_def set_board_def)

text \<open>
  C9, amended: when the game is over and the running score does not exceed
  \<open>old_score\<close> but is strictly greater than the quotient \<open>old_score / 2\<close> as the code
  computes it, in floating point, the final score is \<open>old_score + 1\<close>; it is persisted
  with \<open>set_game\<close> and reported in the "New High Score" message. For \<open>old_score\<close> below
  \<open>2 ^ 53\<close> the float quotient is exactly half of \<open>old_score\<close>; the statement is for
  \<open>old_score\<close> below \<open>2 ^ 1024\<close>, where the division does not overflow.
\<close>

theorem run_turn_consolation:
  assumes "get_game_by_gid (games w) i = Some g"
    and "Board E (Load (board g)) (rng w) = (Inr b, r')"
    and "b_result E b = 1"
    and "b_old_score E b \<ge> b_score E b"
    and "(b_old_score E b < 2 ^ 53
            \<and> real_of_int (b_score E b) > real_of_int (b_old_score E b) / 2)
       \<or> (b_old_score E b < 2 ^ 1024
            \<and> real_of_int (b_score E b) > float_half (b_old_score E b))"
  shows "final_score E b = b_old_score E b + 1
     \<and> run_turn E i w =
      (Inr ([127942] @ ustr '' Game over'' @ [10] @ ustr ''New High Score: ''
            @ str_int (b_old_score E b + 1) @ [10, 128202] @ ustr '' /lines_top'' @ [10, 10] @ b_str E b
            @ [10, 9654, 65039] @ ustr '' Play again?  /lines_play''),
       w\<lparr>games := set_game (games w) (addr g) None (b_old_score E b + 1),
         trace := trace w @ [Board_call (Load (board g)), Set_game (addr g) None (b_old_score E b + 1)],
         rng := r'\<rparr>)"
proof -
  have test: "real_of_int (b_score E b) > float_half (b_old_score E b)"
    using assms(5)
  proof
    assume a: "b_old_score E b < 2 ^ 53
        \<and> real_of_int (b_score E b) > real_of_int (b_old_score E b) / 2"
    then have "b_old_score E b < 2 * b_score E b" by linarith
    with assms(4) have "0 \<le> b_old_score E b" by linarith
    with a have "\<bar>b_old_score E b\<bar> < 2 ^ 53" by simp
    then show ?thesis using a by (simp add: float_half_small)
  next
    assume "b_old_score E b < 2 ^ 1024
        \<and> real_of_int (b_score E b) > float_half (b_old_score E b)"
    then show ?thesis by simp
  qed
  then have fs: "final_score E b = b_old_score E b + 1"
    using assms(4) by (simp add: final_score_def)
  show ?thesis
    using assms(1-3) fs
    by (simp add: run_turn_def call_Board_def db_set_game_def high_score_text_def)
qed

theorem run_turn_consolation_witness:
  "b_old_score toy (42, 30, True) = 42 \<and> b_score toy (42, 30, True) = 30
   \<and> b_result toy (42, 30, True) = 1
   \<and> final_score toy (42, 30, True) = 43
   \<and> run_turn toy 7 (ex_world (Some [42, 30, 1]) 42 0) =
      (Inr ([127942] @ ustr '' Game over'' @ [10] @ ustr ''New High Score: ''
            @ ustr ''43'' @ [10, 128202] @ ustr '' /lines_top'' @ [10, 10]
            @ [10, 9654, 65039] @ ustr '' Play again?  /lines_play''),
       ex_world None 43 0\<lparr>trace := [Board_call (Load (Some [42, 30, 1])),
          Set_game (ustr ''ann@example.org'') None 43]\<rparr>)
   \<and> real_of_int 9007199254740997 > float_half 18014398509481990
   \<and> final_score (over_engine 18014398509481990 9007199254740997) () = 18014398509481991
   \<and> games (snd (run_turn (over_engine 18014398509481990 9007199254740997) 7
        (ex_world (Some (ustr ''x'')) 18014398509481990 0)))
       = [\<lparr>addr = ustr ''ann@example.org'', gid = 7, board = None, score = 18014398509481991\<rparr>]"
proof -
  show ?thesis
    using run_turn_consolation [where w = "ex_world (Some [42, 30, 1]) 42 0" and i = 7
        and E = toy and b = "(42, 30, True)" and r' = 0
        and g = "\<lparr>addr = ustr ''ann@example.org'', gid = 7, board = Some [42, 30, 1], score = 42\<rparr>"]
      run_turn_consolation [where w = "ex_world (Some (ustr ''x'')) 18014398509481990 0"
        and i = 7 and E = "over_engine 18014398509481990 9007199254740997" and b = "()" and r' = 0
        and g = "\<lparr>addr = ustr ''ann@example.org'', gid = 7, board = Some (ustr ''x''),
                   score = 18014398509481990\<rparr>"]
    by (simp add: eval_defs over_engine_def ustr_def str_int_def str_nat.simps
        high_score_text_def float_half_tie)
qed

section \<open>Starting again and skipping\<close>

text \<open>
  C6: when a player with a nick and a stored game sends \<open>/lines_play\<close>, the board is
  constructed as \<open>Board(old_score=S)\<close> with \<open>S\<close> the stored score, and the handler's
  write is \<open>set_board\<close> with the exported board: in the world \<open>wb\<close> it hands to
  \<open>_run_turn\<close> every row has the score it had. When the board \<open>_run_turn\<close> then loads
  is not over, nothing more is written.
\<close>

theorem lines_play_carries_stored_score:
  assumes "truthy (get_nick (nicks w) (m_sender_addr m))"
    and "get_game_by_addr (games w) (m_sender_addr m) = Some g"
    and "Board E (Carry (score g)) (rng w) = (Inr b, r')"
    and "wb = db_set_board (addr g) (Some (b_export E b))
                (w\<lparr>trace := trace w @ [Board_call (Carry (score g))], rng := r'\<rparr>)"
  shows "lines_play E new_gid m w =
      (case run_turn E (gid g) wb of
         (Inl e, wc) \<Rightarrow> (Some e, wc)
       | (Inr t, wc) \<Rightarrow>
           (None, wc\<lparr>replies := replies wc @
              [\<lparr>r_text = ustr ''Game started!'' @ [10, 10] @ t, r_chat = Some (gid g)\<rparr>]\<rparr>))
     \<and> trace wb = trace w @ [Board_call (Carry (score g)), Set_board (addr g) (Some (b_export E b))]
     \<and> games wb = set_board (games w) (addr g) (Some (b_export E b))
     \<and> map score (games wb) = map score (games w)
     \<and> (get_game_by_gid (games wb) (gid g) = Some gb
          \<and> Board E (Load (board gb)) r' = (Inr bb, rb) \<and> b_result E bb \<noteq> 1
        \<longrightarrow> games (snd (lines_play E new_gid m w)) = games wb
            \<and> trace (snd (lines_play E new_gid m w)) = trace wb @ [Board_call (Load (board gb))])"
proof (intro conjI impI)
  show eq: "lines_play E new_gid m w =
      (case run_turn E (gid g) wb of
         (Inl e, wc) \<Rightarrow> (Some e, wc)
       | (Inr t, wc) \<Rightarrow>
           (None, wc\<lparr>replies := replies wc @
              [\<lparr>r_text = ustr ''Game started!'' @ [10, 10] @ t, r_chat = Some (gid g)\<rparr>]\<rparr>))"
    using assms
    by (auto simp: lines_play_def call_Board_def add_reply_def started_text_def
        split: prod.splits sum.splits)
  show "trace wb = trace w @ [Board_call (Carry (score g)), Set_board (addr g) (Some (b_export E b))]"
    by (simp add: assms(4) db_set_board_def)
  show "games wb = set_board (games w) (addr g) (Some (b_export E b))"
    by (simp add: assms(4) db_set_board_def)
  show "map score (games wb) = map score (games w)"
    by (simp add: assms(4) db_set_board_def map_score_set_board)
  assume h: "get_game_by_gid (games wb) (gid g) = Some gb
          \<and> Board E (Load (board gb)) r' = (Inr bb, rb) \<and> b_result E bb \<noteq> 1"
  have r: "rng wb = r'" by (simp add: assms(4) db_set_board_def)
  have rt: "run_turn E (gid g) wb =
      (Inr (turn_text (b_score E bb) (score gb) (b_str E bb) (b_next_balls E bb)),
       wb\<lparr>trace := trace wb @ [Board_call (Load (board gb))], rng := rb\<rparr>)"
    using h r by (simp add: run_turn_def call_Board_def)
  show "games (snd (lines_play E new_gid m w)) = games wb"
    unfolding eq rt by simp
  show "trace (snd (lines_play E new_gid m w)) = trace wb @ [Board_call (Load (board gb))]"
    unfolding eq rt by simp
qed

theorem lines_play_carries_stored_score_witness:
  "truthy (get_nick (nicks (ex_world (Some [10, 3, 0]) 42 0)) (m_sender_addr (ex_msg [])))
   \<and> Board toy (Carry 42) 0 = (Inr (42, 0, False), 0)
   \<and> games (snd (lines_play toy 9 (ex_msg []) (ex_world (Some [10, 3, 0]) 42 0)))
       = [\<lparr>addr = ustr ''ann@example.org'', gid = 7, board = Some [42, 0, 0], score = 42\<rparr>]
   \<and> trace (snd (lines_play toy 9 (ex_msg []) (ex_world (Some [10, 3, 0]) 42 0)))
       = [Board_call (Carry 42), Set_board (ustr ''ann@example.org'') (Some [42, 0, 0]),
          Board_call (Load (Some [42, 0, 0]))]"
  using lines_play_carries_stored_score [where w = "ex_world (Some [10, 3, 0]) 42 0"
      and m = "ex_msg []" and E = toy and b = "(42, 0, False)" and r' = 0 and new_gid = 9
      and g = "\<lparr>addr = ustr ''ann@example.org'', gid = 7, board = Some [10, 3, 0], score = 42\<rparr>"
      and wb = "ex_world (Some [42, 0, 0]) 42 0\<lparr>trace := [Board_call (Carry 42),
                 Set_board (ustr ''ann@example.org'') (Some [42, 0, 0])]\<rparr>"
      and gb = "\<lparr>addr = ustr ''ann@example.org'', gid = 7, board = Some [42, 0, 0], score = 42\<rparr>"
      and bb = "(42, 0, False)" and rb = 0]
  by (simp add: eval_defs ustr_def started_text_def)

text \<open>
  C10: with an active board, \<open>lines_next\<close> writes the exported board by \<open>set_board\<close>
  and no score, whatever the running score after \<open>next()\<close> is: in the world \<open>wb\<close> it
  hands to \<open>_run_turn\<close> every row has the score it had. When the board loaded from
  the exported string is not over, nothing more is written.
\<close>

theorem lines_next_persists_board_only:
  assumes "get_game_by_gid (games w) (m_chat m) = Some g" and "truthy (board g)"
    and "Board E (Load (board g)) (rng w) = (Inr b, ra)"
    and "b_next E b ra = (Inr b', rb)"
    and "wb = db_set_board (addr g) (Some (b_export E b'))
                (w\<lparr>trace := trace w @ [Board_call (Load (board g)), Next_call], rng := rb\<rparr>)"
  shows "lines_next E m w =
      (case run_turn E (m_chat m) wb of
         (Inl e, wc) \<Rightarrow> (Some e, wc)
       | (Inr t, wc) \<Rightarrow> (None, wc\<lparr>replies := replies wc @ [\<lparr>r_text = t, r_chat = None\<rparr>]\<rparr>))
     \<and> trace wb = trace w @ [Board_call (Load (board g)), Next_call,
                              Set_board (addr g) (Some (b_export E b'))]
     \<and> games wb = set_board (games w) (addr g) (Some (b_export E b'))
     \<and> map score (games wb) = map score (games w)
     \<and> (Board E (Load (Some (b_export E b'))) rb = (Inr bb, rc) \<and> b_result E bb \<noteq> 1
        \<longrightarrow> games (snd (lines_next E m w)) = games wb
            \<and> trace (snd (lines_next E m w)) = trace wb @ [Board_call (Load (Some (b_export E b')))])"
proof (intro conjI impI)
  show eq: "lines_next E m w =
      (case run_turn E (m_chat m) wb of
         (Inl e, wc) \<Rightarrow> (Some e, wc)
       | (Inr t, wc) \<Rightarrow> (None, wc\<lparr>replies := replies wc @ [\<lparr>r_text = t, r_chat = None\<rparr>]\<rparr>))"
    using assms
    by (auto simp: lines_next_def call_Board_def call_next_def add_reply_def
        split: prod.splits sum.splits)
  show "trace wb = trace w @ [Board_call (Load (board g)), Next_call,
                              Set_board (addr g) (Some (b_export E b'))]"
    by (simp add: assms(5) db_set_board_def)
  show "games wb = set_board (games w) (addr g) (Some (b_export E b'))"
    by (simp add: assms(5) db_set_board_def)
  show "map score (games wb) = map score (games w)"
    by (simp add: assms(5) db_set_board_def map_score_set_board)
  assume h: "Board E (Load (Some (b_export E b'))) rb = (Inr bb, rc) \<and> b_result E bb \<noteq> 1"
  have r: "rng wb = rb" by (simp add: assms(5) db_set_board_def)
  have gb: "get_game_by_gid (games wb) (m_chat m) = Some (g\<lparr>board := Some (b_export E b')\<rparr>)"
    using assms(1) by (simp add: assms(5) db_set_board_def get_game_by_gid_set_board)
  have rt: "run_turn E (m_chat m) wb =
      (Inr (turn_text (b_score E bb) (score g) (b_str E bb) (b_next_balls E bb)),
       wb\<lparr>trace := trace wb @ [Board_call (Load (Some (b_export E b')))], rng := rc\<rparr>)"
    using h r gb by (simp add: run_turn_def call_Board_def)
  show "games (snd (lines_next E m w)) = games wb"
    unfolding eq rt by simp
  show "trace (snd (lines_next E m w)) = trace wb @ [Board_call (Load (Some (b_export E b')))]"
    unfolding eq rt by simp
qed

theorem lines_next_persists_board_only_witness:
  "b_next toy (0, 3, False) 0 = (Inr (0, 10, False), 0)
   \<and> score (hd (games (ex_world (Some [0, 3, 0]) 3 0))) < b_score toy (0, 10, False)
   \<and> games (snd (lines_next toy (ex_msg []) (ex_world (Some [0, 3, 0]) 3 0)))
       = [\<lparr>addr = ustr ''ann@example.org'', gid = 7, board = Some [0, 10, 0], score = 3\<rparr>]
   \<and> trace (snd (lines_next toy (ex_msg []) (ex_world (Some [0, 3, 0]) 3 0)))
       = [Board_call (Load (Some [0, 3, 0])), Next_call,
          Set_board (ustr ''ann@example.org'') (Some [0, 10, 0]),
          Board_call (Load (Some [0, 10, 0]))]"
  using lines_next_persists_board_only [where w = "ex_world (Some [0, 3, 0]) 3 0"
      and m = "ex_msg []" and E = toy and b = "(0, 3, False)" and ra = 0
      and b' = "(0, 10, False)" and rb = 0
      and g = "\<lparr>addr = ustr ''ann@example.org'', gid = 7, board = Some [0, 3, 0], score = 3\<rparr>"
      and wb = "ex_world (Some [0, 10, 0]) 3 0\<lparr>trace := [Board_call (Load (Some [0, 3, 0])),
                 Next_call, Set_board (ustr ''ann@example.org'') (Some [0, 10, 0])]\<rparr>"
      and bb = "(0, 10, False)" and rc = 0]
  by (simp add: eval_defs)

section \<open>The stored score never decreases\<close>

lemma stored_score_set_board: "stored_score (set_board gs a b) x = stored_score gs x"
proof -
  have "find (\<lambda>g. addr g = x) (set_board gs a b)
      = map_option (\<lambda>g. if addr g = a then g\<lparr>board := b\<rparr> else g) (find (\<lambda>g. addr g = x) gs)"
    unfolding set_board_def by (rule find_map_same) simp
  then show ?thesis
    by (cases "find (\<lambda>g. addr g = x) gs") (simp_all add: stored_score_def get_game_by_addr_def)
qed

lemma stored_score_set_game:
  "stored_score (set_game gs a b s) x
     = (if x = a then map_option (\<lambda>_. s) (stored_score gs x) else stored_score gs x)"
proof -
  have f: "find (\<lambda>g. addr g = x) (set_game gs a b s)
      = map_option (\<lambda>g. if addr g = a then g\<lparr>board := b, score := s\<rparr> else g)
          (find (\<lambda>g. addr g = x) gs)"
    unfolding set_game_def by (rule find_map_same) simp
  show ?thesis
  proof (cases "find (\<lambda>g. addr g = x) gs")
    case None
    then show ?thesis using f by (auto simp: stored_score_def get_game_by_addr_def)
  next
    case (Some g)
    then have "addr g = x" by (auto simp: find_Some_iff)
    then show ?thesis using f Some by (auto simp: stored_score_def get_game_by_addr_def)
  qed
qed

lemma stored_score_in_set:
  "stored_score gs a = Some s \<Longrightarrow> \<exists>g\<in>set gs. addr g = a \<and> score g = s"
  by (auto simp: stored_score_def get_game_by_addr_def find_Some_iff)

lemma grows_refl: "grows gs gs"
  by (simp add: grows_def)

lemma grows_trans: "grows gs gs' \<Longrightarrow> grows gs' gs'' \<Longrightarrow> grows gs gs''"
  unfolding grows_def by (meson order_trans)

lemma grows_set_board: "grows gs (set_board gs a b)"
  by (simp add: grows_def stored_score_set_board)

lemma grows_set_game:
  assumes "\<forall>g\<in>set gs. addr g = a \<longrightarrow> score g \<le> s"
  shows "grows gs (set_game gs a b s)"
  unfolding grows_def
proof (intro allI impI)
  fix x t assume st: "stored_score gs x = Some t"
  then obtain g where "g \<in> set gs" "addr g = x" "score g = t"
    using stored_score_in_set by blast
  with assms have "x = a \<Longrightarrow> t \<le> s" by auto
  with st show "\<exists>s'. stored_score (set_game gs a b s) x = Some s' \<and> t \<le> s'"
    by (auto simp: stored_score_set_game)
qed

lemma unique_row:
  "distinct (map addr gs) \<Longrightarrow> g \<in> set gs \<Longrightarrow> g' \<in> set gs \<Longrightarrow> addr g' = addr g \<Longrightarrow> g' = g"
  by (meson distinct_map inj_onD)

lemma map_addr_set_board: "map addr (set_board gs a b) = map addr gs"
  by (simp add: set_board_def comp_def cong: map_cong)

lemma map_addr_set_game: "map addr (set_game gs a b s) = map addr gs"
  by (simp add: set_game_def comp_def cong: map_cong)

lemma db_ok_set_board_None: "db_ok E gs \<Longrightarrow> db_ok E (set_board gs a None)"
proof -
  assume ok: "db_ok E gs"
  have "list_all (row_ok E) (set_board gs a None)"
    using ok by (auto simp: db_ok_def list_all_iff set_board_def row_ok_def)
  then show ?thesis using ok by (simp add: db_ok_def map_addr_set_board)
qed

lemma db_ok_set_game_None: "db_ok E gs \<Longrightarrow> db_ok E (set_game gs a None s)"
proof -
  assume ok: "db_ok E gs"
  have "list_all (row_ok E) (set_game gs a None s)"
    using ok by (auto simp: db_ok_def list_all_iff set_game_def row_ok_def)
  then show ?thesis using ok by (simp add: db_ok_def map_addr_set_game)
qed

lemma db_ok_set_board_Some:
  assumes "db_ok E gs"
    and "\<forall>g\<in>set gs. addr g = a \<longrightarrow> score g \<le> max (b_old_score E b) (b_score E b)"
  shows "db_ok E (set_board gs a (Some (b_export E b)))"
proof -
  have "list_all (row_ok E) (set_board gs a (Some (b_export E b)))"
    using assms by (auto simp: db_ok_def list_all_iff set_board_def row_ok_def)
  then show ?thesis using assms(1) by (simp add: db_ok_def map_addr_set_board)
qed

lemma db_ok_set_game_Some:
  assumes "db_ok E gs" and "s \<le> max (b_old_score E b) (b_score E b)"
  shows "db_ok E (set_game gs a (Some (b_export E b)) s)"
proof -
  have "list_all (row_ok E) (set_game gs a (Some (b_export E b)) s)"
    using assms by (auto simp: db_ok_def list_all_iff set_game_def row_ok_def)
  then show ?thesis using assms(1) by (simp add: db_ok_def map_addr_set_game)
qed

lemma get_game_by_gid_in_set: "get_game_by_gid gs i = Some g \<Longrightarrow> g \<in> set gs"
  by (auto simp: get_game_by_gid_def find_Some_iff)

lemma get_game_by_addr_in_set: "get_game_by_addr gs a = Some g \<Longrightarrow> g \<in> set gs \<and> addr g = a"
  by (auto simp: get_game_by_addr_def find_Some_iff)

lemma db_ok_row: "db_ok E gs \<Longrightarrow> g \<in> set gs \<Longrightarrow> row_ok E g"
  by (simp add: db_ok_def list_all_iff)

lemma db_ok_unique:
  "db_ok E gs \<Longrightarrow> g \<in> set gs \<Longrightarrow> g' \<in> set gs \<Longrightarrow> addr g' = addr g \<Longrightarrow> g' = g"
  unfolding db_ok_def using unique_row by blast

text \<open>Loading a row of a sound database.\<close>

lemma load_row:
  assumes "sane_engine E" and "row_ok E g" and "Board E (Load (board g)) r = (Inr b, r')"
  shows "(board g = None \<and> b_result E b \<noteq> 1)
       \<or> (board g = Some (b_export E b) \<and> score g \<le> max (b_old_score E b) (b_score E b))"
proof (cases "board g")
  case None
  with assms(3) have "fst (Board E (Load None) r) = Inr b" by simp
  with assms(1) have "b_result E b \<noteq> 1" unfolding sane_engine_def by blast
  with None show ?thesis by simp
next
  case (Some s)
  with assms(2) obtain b0 where b0: "s = b_export E b0"
    "score g \<le> max (b_old_score E b0) (b_score E b0)"
    by (auto simp: row_ok_def)
  from assms(1) have "fst (Board E (Load (Some (b_export E b0))) r) = Inr b0"
    unfolding sane_engine_def by blast
  with assms(3) Some b0 have "b = b0" by simp
  with Some b0 show ?thesis by simp
qed

lemma final_score_ge:
  assumes "score g \<le> max (b_old_score E b) (b_score E b)"
    and "final_score E b > b_old_score E b"
  shows "score g \<le> final_score E b"
  using assms by (auto simp: final_score_def max_def split: if_splits)

lemma run_turn_ok:
  assumes sane: "sane_engine E" and ok: "db_ok E (games w)"
  shows "db_ok E (games (snd (run_turn E i w))) \<and> grows (games w) (games (snd (run_turn E i w)))"
proof (cases "get_game_by_gid (games w) i")
  case None
  then show ?thesis using ok by (simp add: run_turn_def grows_refl)
next
  case (Some g)
  then have gin: "g \<in> set (games w)" by (rule get_game_by_gid_in_set)
  obtain res r' where B: "Board E (Load (board g)) (rng w) = (res, r')"
    by (cases "Board E (Load (board g)) (rng w)")
  show ?thesis
  proof (cases res)
    case (Inl e)
    then show ?thesis using Some B ok by (simp add: run_turn_def call_Board_def grows_refl)
  next
    case (Inr b)
    show ?thesis
    proof (cases "b_result E b = 1")
      case False
      then show ?thesis using Some B Inr ok by (simp add: run_turn_def call_Board_def grows_refl)
    next
      case True
      have "score g \<le> max (b_old_score E b) (b_score E b)"
        using load_row [OF sane db_ok_row [OF ok gin]] B Inr True by blast
      then have fin: "final_score E b > b_old_score E b \<Longrightarrow> score g \<le> final_score E b"
        by (rule final_score_ge)
      show ?thesis
      proof (cases "final_score E b > b_old_score E b")
        case hi: True
        have eq: "games (snd (run_turn E i w)) = set_game (games w) (addr g) None (final_score E b)"
          using Some B Inr True hi by (simp add: run_turn_def call_Board_def db_set_game_def)
        have "\<forall>g'\<in>set (games w). addr g' = addr g \<longrightarrow> score g' \<le> final_score E b"
          using db_ok_unique [OF ok gin] fin hi by blast
        then show ?thesis unfolding eq using ok
          by (simp add: db_ok_set_game_None grows_set_game)
      next
        case lo: False
        have eq: "games (snd (run_turn E i w)) = set_board (games w) (addr g) None"
          using Some B Inr True lo by (simp add: run_turn_def call_Board_def db_set_board_def)
        show ?thesis unfolding eq using ok
          by (simp add: db_ok_set_board_None grows_set_board)
      qed
    qed
  qed
qed

lemma run_turn_ok_from:
  assumes "sane_engine E" and "db_ok E (games w1)" and "grows gs (games w1)"
  shows "db_ok E (games (snd (run_turn E i w1))) \<and> grows gs (games (snd (run_turn E i w1)))"
  using run_turn_ok [OF assms(1,2), of i] assms(3) grows_trans by blast

lemma try_move_ok:
  assumes sane: "sane_engine E" and ok: "db_ok E (games w)"
    and gin: "g \<in> set (games w)" and tr: "truthy (board g)"
  shows "db_ok E (games (snd (try_move E m g w))) \<and> grows (games w) (games (snd (try_move E m g w)))"
proof -
  obtain res w1 where B: "call_Board E (Load (board g)) w = (res, w1)"
    by (cases "call_Board E (Load (board g)) w")
  have g1: "games w1 = games w" and b1: "fst (Board E (Load (board g)) (rng w)) = res"
    using B by (auto simp: call_Board_def split: prod.splits)
  show ?thesis
  proof (cases res)
    case (Inl e)
    then show ?thesis using B g1 ok by (simp add: try_move_def grows_refl)
  next
    case (Inr b)
    obtain res' w2 where M: "call_move E b (m_text m) w1 = (res', w2)"
      by (cases "call_move E b (m_text m) w1")
    have g2: "games w2 = games w" and b2: "fst (b_move E b (m_text m) (rng w1)) = res'"
      using M g1 by (auto simp: call_move_def split: prod.splits)
    show ?thesis
    proof (cases res')
      case (Inl e)
      then show ?thesis using B Inr M g2 ok by (simp add: try_move_def grows_refl)
    next
      case mv: (Inr b')
      define w3 where "w3 = (if b_score E b' > score g
          then db_set_game (addr g) (Some (b_export E b')) (b_score E b') w2
          else db_set_board (addr g) (Some (b_export E b')) w2)"
      have keep: "b_old_score E b' = b_old_score E b" "b_score E b \<le> b_score E b'"
        using sane b2 mv unfolding sane_engine_def by blast+
      obtain r' where "Board E (Load (board g)) (rng w) = (Inr b, r')"
        using b1 Inr by (cases "Board E (Load (board g)) (rng w)") simp
      from load_row [OF sane db_ok_row [OF ok gin] this] tr
      have row: "score g \<le> max (b_old_score E b) (b_score E b)" by auto
      have "db_ok E (games w3) \<and> grows (games w) (games w3)"
      proof (cases "b_score E b' > score g")
        case True
        have "\<forall>g'\<in>set (games w). addr g' = addr g \<longrightarrow> score g' \<le> b_score E b'"
          using db_ok_unique [OF ok gin] True by fastforce
        then show ?thesis using True ok
          by (simp add: w3_def db_set_game_def g2 db_ok_set_game_Some grows_set_game)
      next
        case False
        have "score g \<le> max (b_old_score E b') (b_score E b')" using row keep by simp
        then have "\<forall>g'\<in>set (games w). addr g' = addr g
            \<longrightarrow> score g' \<le> max (b_old_score E b') (b_score E b')"
          using db_ok_unique [OF ok gin] by blast
        then show ?thesis using False ok
          by (simp add: w3_def db_set_board_def g2 db_ok_set_board_Some grows_set_board)
      qed
      then have rt: "db_ok E (games (snd (run_turn E (m_chat m) w3)))
          \<and> grows (games w) (games (snd (run_turn E (m_chat m) w3)))"
        using run_turn_ok_from [OF sane] by blast
      have "games (snd (try_move E m g w)) = games (snd (run_turn E (m_chat m) w3))"
        using B Inr M mv
        by (simp add: try_move_def w3_def add_reply_def split: prod.splits sum.splits)
      then show ?thesis using rt by simp
    qed
  qed
qed

lemma filter_messages_games:
  "games (snd (filter_messages U E m w)) = games w
   \<or> (\<exists>g. get_game_by_gid (games w) (m_chat m) = Some g \<and> truthy (board g)
         \<and> games (snd (filter_messages U E m w)) = games (snd (try_move E m g w)))"
proof (cases "get_game_by_gid (games w) (m_chat m)")
  case None
  then show ?thesis by (simp add: filter_messages_def)
next
  case (Some g)
  obtain x w' where tm: "try_move E m g w = (x, w')" by (cases "try_move E m g w")
  have "games (snd (filter_messages U E m w)) = games w
      \<or> (truthy (board g) \<and> games (snd (filter_messages U E m w)) = games w')"
    using Some tm
    by (simp add: filter_messages_def add_reply_def split: option.splits error.splits)
  with tm Some show ?thesis by auto
qed

lemma filter_messages_ok:
  assumes "sane_engine E" and "db_ok E (games w)"
  shows "db_ok E (games (snd (filter_messages U E m w)))
     \<and> grows (games w) (games (snd (filter_messages U E m w)))"
proof -
  from filter_messages_games [of U E m w] show ?thesis
  proof
    assume "games (snd (filter_messages U E m w)) = games w"
    then show ?thesis using assms(2) by (simp add: grows_refl)
  next
    assume "\<exists>g. get_game_by_gid (games w) (m_chat m) = Some g \<and> truthy (board g)
         \<and> games (snd (filter_messages U E m w)) = games (snd (try_move E m g w))"
    then obtain g where g: "get_game_by_gid (games w) (m_chat m) = Some g" "truthy (board g)"
      "games (snd (filter_messages U E m w)) = games (snd (try_move E m g w))" by blast
    show ?thesis
      unfolding g(3) using try_move_ok [OF assms get_game_by_gid_in_set [OF g(1)] g(2)] .
  qed
qed

lemma lines_next_ok:
  assumes sane: "sane_engine E" and ok: "db_ok E (games w)"
  shows "db_ok E (games (snd (lines_next E m w)))
     \<and> grows (games w) (games (snd (lines_next E m w)))"
proof (cases "get_game_by_gid (games w) (m_chat m)")
  case None
  then show ?thesis using ok by (simp add: lines_next_def add_reply_def grows_refl)
next
  case (Some g)
  then have gin: "g \<in> set (games w)" by (rule get_game_by_gid_in_set)
  obtain res r' where B: "Board E (Load (board g)) (rng w) = (res, r')"
    by (cases "Board E (Load (board g)) (rng w)")
  show ?thesis
  proof (cases "truthy (board g)")
    case False
    then show ?thesis using Some ok by (simp add: lines_next_def add_reply_def grows_refl)
  next
    case tr: True
    show ?thesis
    proof (cases res)
      case (Inl e)
      then show ?thesis using Some tr B ok
        by (simp add: lines_next_def call_Board_def grows_refl)
    next
      case (Inr b)
      obtain res2 r'' where N: "b_next E b r' = (res2, r'')" by (cases "b_next E b r'")
      show ?thesis
      proof (cases res2)
        case (Inl e)
        then show ?thesis using Some tr B Inr N ok
          by (simp add: lines_next_def call_Board_def call_next_def grows_refl)
      next
        case nx: (Inr b')
        define w2 where "w2 = w\<lparr>trace := trace w @ [Board_call (Load (board g))], rng := r'\<rparr>
                              \<lparr>trace := trace w @ [Board_call (Load (board g))] @ [Next_call], rng := r''\<rparr>"
        define w3 where "w3 = db_set_board (addr g) (Some (b_export E b')) w2"
        have "fst (b_next E b r') = Inr b'" using N nx by simp
        then have keep: "b_old_score E b' = b_old_score E b" "b_score E b \<le> b_score E b'"
          using sane unfolding sane_engine_def by blast+
        have "Board E (Load (board g)) (rng w) = (Inr b, r')" using B Inr by simp
        from load_row [OF sane db_ok_row [OF ok gin] this] tr
        have row: "score g \<le> max (b_old_score E b) (b_score E b)" by auto
        have g2: "games w2 = games w" by (simp add: w2_def)
        have "score g \<le> max (b_old_score E b') (b_score E b')" using row keep by simp
        then have "\<forall>g'\<in>set (games w). addr g' = addr g
            \<longrightarrow> score g' \<le> max (b_old_score E b') (b_score E b')"
          using db_ok_unique [OF ok gin] by blast
        then have "db_ok E (games w3) \<and> grows (games w) (games w3)"
          using ok by (simp add: w3_def db_set_board_def g2 db_ok_set_board_Some grows_set_board)
        then have rt: "db_ok E (games (snd (run_turn E (m_chat m) w3)))
            \<and> grows (games w) (games (snd (run_turn E (m_chat m) w3)))"
          using run_turn_ok_from [OF sane] by blast
        have "games (snd (lines_next E m w)) = games (snd (run_turn E (m_chat m) w3))"
          using Some tr B Inr N nx
          by (simp add: lines_next_def call_Board_def call_next_def w3_def w2_def add_reply_def
              split: prod.splits sum.splits)
        then show ?thesis using rt by simp
      qed
    qed
  qed
qed

lemma lines_repeat_ok:
  assumes sane: "sane_engine E" and ok: "db_ok E (games w)"
  shows "db_ok E (games (snd (lines_repeat E m w)))
     \<and> grows (games w) (games (snd (lines_repeat E m w)))"
proof -
  have "games (snd (lines_repeat E m w)) = games w
      \<or> (\<exists>i. games (snd (lines_repeat E m w)) = games (snd (run_turn E i w)))"
  proof (cases "get_game_by_addr (games w) (m_sender_addr m)")
    case None
    then show ?thesis by (simp add: lines_repeat_def add_reply_def)
  next
    case (Some g)
    obtain x w' where rt: "run_turn E (gid g) w = (x, w')" by (cases "run_turn E (gid g) w")
    have "games (snd (lines_repeat E m w)) = games w \<or> games (snd (lines_repeat E m w)) = games w'"
      using Some rt by (simp add: lines_repeat_def add_reply_def split: sum.splits)
    with rt show ?thesis by (metis snd_conv)
  qed
  then show ?thesis
  proof
    assume "games (snd (lines_repeat E m w)) = games w"
    then show ?thesis using ok by (simp add: grows_refl)
  next
    assume "\<exists>i. games (snd (lines_repeat E m w)) = games (snd (run_turn E i w))"
    then obtain i where i: "games (snd (lines_repeat E m w)) = games (snd (run_turn E i w))"
      by blast
    show ?thesis unfolding i using run_turn_ok [OF assms] .
  qed
qed

lemma stored_score_append:
  "stored_score gs x = Some s \<Longrightarrow> stored_score (gs @ ys) x = Some s"
  by (induction gs) (auto simp: stored_score_def get_game_by_addr_def)

lemma grows_add_game: "grows gs (add_game gs a i b)"
  unfolding grows_def add_game_def using stored_score_append by blast

lemma get_game_by_addr_None: "get_game_by_addr gs a = None \<Longrightarrow> a \<notin> addr ` set gs"
  by (auto simp: get_game_by_addr_def find_None_iff)

lemma db_ok_add_game:
  assumes "db_ok E gs" and "a \<notin> addr ` set gs" and "0 \<le> max (b_old_score E b) (b_score E b)"
  shows "db_ok E (add_game gs a i (b_export E b))"
  using assms by (auto simp: db_ok_def add_game_def row_ok_def)

lemma stored_score_delete_game:
  "stored_score (delete_game gs a) x = (if x = a then None else stored_score gs x)"
  by (induction gs) (auto simp: stored_score_def get_game_by_addr_def delete_game_def)

lemma db_ok_delete_game: "db_ok E gs \<Longrightarrow> db_ok E (delete_game gs a)"
  by (auto simp: db_ok_def delete_game_def distinct_map_filter list_all_iff)

lemma lines_play_ok:
  assumes sane: "sane_engine E" and ok: "db_ok E (games w)"
  shows "db_ok E (games (snd (lines_play E new_gid m w)))
     \<and> grows (games w) (games (snd (lines_play E new_gid m w)))"
proof (cases "truthy (get_nick (nicks w) (m_sender_addr m))")
  case False
  then show ?thesis using ok by (simp add: lines_play_def add_reply_def grows_refl)
next
  case nick: True
  show ?thesis
  proof (cases "get_game_by_addr (games w) (m_sender_addr m)")
    case None
    define w0 where "w0 = w\<lparr>trace := trace w @ [Create_group (m_sender_addr m)]\<rparr>"
    obtain res r' where B: "Board E Fresh (rng w) = (res, r')" by (cases "Board E Fresh (rng w)")
    show ?thesis
    proof (cases res)
      case (Inl e)
      then show ?thesis using nick None B ok
        by (simp add: lines_play_def call_Board_def grows_refl)
    next
      case (Inr b)
      define w1 where "w1 = w0\<lparr>trace := trace w0 @ [Board_call Fresh], rng := r'\<rparr>"
      define w2 where "w2 = db_add_game (m_sender_addr m) new_gid (b_export E b) w1"
      have "fst (Board E Fresh (rng w)) = Inr b" using B Inr by simp
      then have "b_score E b = 0" using sane unfolding sane_engine_def by blast
      then have "0 \<le> max (b_old_score E b) (b_score E b)" by simp
      then have "db_ok E (games w2) \<and> grows (games w) (games w2)"
        using ok get_game_by_addr_None [OF None]
        by (simp add: w2_def w1_def w0_def db_add_game_def db_ok_add_game grows_add_game)
      then have rt: "db_ok E (games (snd (run_turn E new_gid w2)))
          \<and> grows (games w) (games (snd (run_turn E new_gid w2)))"
        using run_turn_ok_from [OF sane] by blast
      have "games (snd (lines_play E new_gid m w)) = games (snd (run_turn E new_gid w2))"
        using nick None B Inr
        by (simp add: lines_play_def call_Board_def w2_def w1_def w0_def add_reply_def
            split: prod.splits sum.splits)
      then show ?thesis using rt by simp
    qed
  next
    case (Some g)
    then have gin: "g \<in> set (games w)" using get_game_by_addr_in_set by blast
    obtain res r' where B: "Board E (Carry (score g)) (rng w) = (res, r')"
      by (cases "Board E (Carry (score g)) (rng w)")
    show ?thesis
    proof (cases res)
      case (Inl e)
      then show ?thesis using nick Some B ok
        by (simp add: lines_play_def call_Board_def grows_refl)
    next
      case (Inr b)
      define w1 where "w1 = w\<lparr>trace := trace w @ [Board_call (Carry (score g))], rng := r'\<rparr>"
      define w2 where "w2 = db_set_board (addr g) (Some (b_export E b)) w1"
      have "fst (Board E (Carry (score g)) (rng w)) = Inr b" using B Inr by simp
      then have "b_old_score E b = score g" using sane unfolding sane_engine_def by blast
      then have "score g \<le> max (b_old_score E b) (b_score E b)" by simp
      then have "\<forall>g'\<in>set (games w). addr g' = addr g
          \<longrightarrow> score g' \<le> max (b_old_score E b) (b_score E b)"
        using db_ok_unique [OF ok gin] by blast
      then have "db_ok E (games w2) \<and> grows (games w) (games w2)"
        using ok by (simp add: w2_def w1_def db_set_board_def db_ok_set_board_Some grows_set_board)
      then have rt: "db_ok E (games (snd (run_turn E (gid g) w2)))
          \<and> grows (games w) (games (snd (run_turn E (gid g) w2)))"
        using run_turn_ok_from [OF sane] by blast
      have "games (snd (lines_play E new_gid m w)) = games (snd (run_turn E (gid g) w2))"
        using nick Some B Inr
        by (simp add: lines_play_def call_Board_def w2_def w1_def add_reply_def
            split: prod.splits sum.splits)
      then show ?thesis using rt by simp
    qed
  qed
qed

lemma member_removed_games:
  "games (deltabot_member_removed me c a w) = games w
   \<or> (\<exists>x. games (deltabot_member_removed me c a w) = delete_game (games w) x)"
  by (auto simp: deltabot_member_removed_def db_delete_game_def split: option.splits)

lemma handle_ok:
  assumes "sane_engine E" and "db_ok E (games w)"
  shows "db_ok E (games (handle U E rq w))
     \<and> (\<forall>a s s'. stored_score (games w) a = Some s
           \<and> stored_score (games (handle U E rq w)) a = Some s' \<longrightarrow> s \<le> s')"
proof (cases rq)
  case (Member_removed me c x)
  from member_removed_games [of me c x w] show ?thesis
  proof
    assume "games (deltabot_member_removed me c x w) = games w"
    then show ?thesis using assms(2) Member_removed by (auto simp: handle_def)
  next
    assume "\<exists>y. games (deltabot_member_removed me c x w) = delete_game (games w) y"
    then obtain y where "games (deltabot_member_removed me c x w) = delete_game (games w) y"
      by blast
    then show ?thesis using assms(2) Member_removed
      by (auto simp: handle_def db_ok_delete_game stored_score_delete_game split: if_splits)
  qed
next
  case (Filter_messages m)
  then show ?thesis using filter_messages_ok [OF assms, of U m]
    by (fastforce simp: handle_def grows_def)
next
  case (Lines_play i m)
  then show ?thesis using lines_play_ok [OF assms, of i m]
    by (fastforce simp: handle_def grows_def)
next
  case (Lines_next m)
  then show ?thesis using lines_next_ok [OF assms, of m]
    by (fastforce simp: handle_def grows_def)
next
  case (Lines_repeat m)
  then show ?thesis using lines_repeat_ok [OF assms, of m]
    by (fastforce simp: handle_def grows_def)
qed

lemma reachable_db_ok:
  assumes "sane_engine E" and "reachable U E w"
  shows "db_ok E (games w)"
  using assms(2)
proof (induction rule: reachable.induct)
  case (start w)
  then show ?case by (simp add: db_ok_def)
next
  case (step w rq)
  then show ?case using handle_ok [OF assms(1)] by blast
next
  case (other w w')
  then show ?case by simp
qed

subsection \<open>Which code writes a score\<close>

lemma added_same: "added w w = []"
  by (simp add: added_def)

lemma added_append: "trace w' = trace w @ evs \<Longrightarrow> added w w' = evs"
  by (simp add: added_def)

lemma run_turn_added:
  "\<exists>evs. trace (snd (run_turn E i w)) = trace w @ evs \<and> board_kept evs"
  by (auto simp: run_turn_def world_ops board_kept_def split: option.splits prod.splits sum.splits)

lemma run_turn_score_write:
  assumes "Set_game a brd s \<in> set (added w (snd (run_turn E i w)))"
  shows "brd = None \<and> (\<exists>g b r'. get_game_by_gid (games w) i = Some g
           \<and> Board E (Load (board g)) (rng w) = (Inr b, r') \<and> a = addr g
           \<and> s = final_score E b \<and> b_old_score E b < s)"
proof (cases "get_game_by_gid (games w) i")
  case None
  then show ?thesis using assms by (simp add: run_turn_def added_def)
next
  case (Some g)
  obtain res r' where B: "Board E (Load (board g)) (rng w) = (res, r')"
    by (cases "Board E (Load (board g)) (rng w)")
  show ?thesis
  proof (cases res)
    case (Inl e)
    then show ?thesis using assms Some B by (simp add: run_turn_def added_def call_Board_def)
  next
    case (Inr b)
    then show ?thesis using assms Some B
      by (auto simp: run_turn_def added_def call_Board_def db_set_game_def db_set_board_def
          split: if_splits)
  qed
qed

lemma lines_next_added:
  "\<exists>evs. trace (snd (lines_next E m w)) = trace w @ evs \<and> board_kept evs"
proof -
  have rt: "\<exists>evs. trace (snd (run_turn E i v)) = trace v @ evs \<and> board_kept evs" for i v
    by (rule run_turn_added)
  show ?thesis
  proof (cases "get_game_by_gid (games w) (m_chat m)")
    case None
    then show ?thesis by (simp add: lines_next_def add_reply_def board_kept_def)
  next
    case (Some g)
    obtain res w1 where B: "call_Board E (Load (board g)) w = (res, w1)"
      by (cases "call_Board E (Load (board g)) w")
    have t1: "trace w1 = trace w @ [Board_call (Load (board g))]"
      using B by (auto simp: call_Board_def split: prod.splits)
    show ?thesis
    proof (cases "truthy (board g)")
      case False
      then show ?thesis using Some by (simp add: lines_next_def add_reply_def board_kept_def)
    next
      case tr: True
      show ?thesis
      proof (cases res)
        case (Inl e)
        then show ?thesis using Some tr B t1 by (simp add: lines_next_def board_kept_def)
      next
        case (Inr b)
        obtain res' w2 where N: "call_next E b w1 = (res', w2)" by (cases "call_next E b w1")
        have t2: "trace w2 = trace w1 @ [Next_call]"
          using N by (auto simp: call_next_def split: prod.splits)
        show ?thesis
        proof (cases res')
          case (Inl e)
          then show ?thesis using Some tr B Inr N t1 t2 by (simp add: lines_next_def board_kept_def)
        next
          case nx: (Inr b')
          define w3 where "w3 = db_set_board (addr g) (Some (b_export E b')) w2"
          obtain evs where evs: "trace (snd (run_turn E (m_chat m) w3)) = trace w3 @ evs"
            "board_kept evs" using rt by blast
          have t3: "trace w3 = trace w @ [Board_call (Load (board g)), Next_call,
              Set_board (addr g) (Some (b_export E b'))]"
            using t1 t2 by (simp add: w3_def db_set_board_def)
          have "trace (snd (lines_next E m w)) = trace (snd (run_turn E (m_chat m) w3))"
            using Some tr B Inr N nx
            by (simp add: lines_next_def w3_def add_reply_def split: prod.splits sum.splits)
          then show ?thesis using evs t3 by (auto simp: board_kept_def)
        qed
      qed
    qed
  qed
qed

lemma lines_play_added:
  "\<exists>evs. trace (snd (lines_play E new_gid m w)) = trace w @ evs \<and> board_kept evs"
proof -
  have rt: "\<exists>evs. trace (snd (run_turn E i v)) = trace v @ evs \<and> board_kept evs" for i v
    by (rule run_turn_added)
  show ?thesis
  proof (cases "truthy (get_nick (nicks w) (m_sender_addr m))")
    case False
    then show ?thesis by (simp add: lines_play_def add_reply_def board_kept_def)
  next
    case nick: True
    show ?thesis
    proof (cases "get_game_by_addr (games w) (m_sender_addr m)")
      case None
      define w0 where "w0 = w\<lparr>trace := trace w @ [Create_group (m_sender_addr m)]\<rparr>"
      obtain res w1 where B: "call_Board E Fresh w0 = (res, w1)" by (cases "call_Board E Fresh w0")
      have t1: "trace w1 = trace w @ [Create_group (m_sender_addr m), Board_call Fresh]"
        using B by (auto simp: call_Board_def w0_def split: prod.splits)
      show ?thesis
      proof (cases res)
        case (Inl e)
        then show ?thesis using nick None B t1
          by (simp add: lines_play_def w0_def board_kept_def)
      next
        case (Inr b)
        define w2 where "w2 = db_add_game (m_sender_addr m) new_gid (b_export E b) w1"
        obtain evs where evs: "trace (snd (run_turn E new_gid w2)) = trace w2 @ evs"
          "board_kept evs" using rt by blast
        have t2: "trace w2 = trace w @ [Create_group (m_sender_addr m), Board_call Fresh,
            Add_game (m_sender_addr m) new_gid (b_export E b)]"
          using t1 by (simp add: w2_def db_add_game_def)
        have "trace (snd (lines_play E new_gid m w)) = trace (snd (run_turn E new_gid w2))"
          using nick None B Inr
          by (simp add: lines_play_def w2_def w0_def add_reply_def split: prod.splits sum.splits)
        then show ?thesis using evs t2 by (auto simp: board_kept_def)
      qed
    next
      case (Some g)
      obtain res w1 where B: "call_Board E (Carry (score g)) w = (res, w1)"
        by (cases "call_Board E (Carry (score g)) w")
      have t1: "trace w1 = trace w @ [Board_call (Carry (score g))]"
        using B by (auto simp: call_Board_def split: prod.splits)
      show ?thesis
      proof (cases res)
        case (Inl e)
        then show ?thesis using nick Some B t1 by (simp add: lines_play_def board_kept_def)
      next
        case (Inr b)
        define w2 where "w2 = db_set_board (addr g) (Some (b_export E b)) w1"
        obtain evs where evs: "trace (snd (run_turn E (gid g) w2)) = trace w2 @ evs"
          "board_kept evs" using rt by blast
        have t2: "trace w2 = trace w @ [Board_call (Carry (score g)),
            Set_board (addr g) (Some (b_export E b))]"
          using t1 by (simp add: w2_def db_set_board_def)
        have "trace (snd (lines_play E new_gid m w)) = trace (snd (run_turn E (gid g) w2))"
          using nick Some B Inr
          by (simp add: lines_play_def w2_def add_reply_def split: prod.splits sum.splits)
        then show ?thesis using evs t2 by (auto simp: board_kept_def)
      qed
    qed
  qed
qed

lemma try_move_score_write:
  assumes "Set_game a (Some x) s \<in> set (added w (snd (try_move E m g w)))"
  shows "a = addr g \<and> score g < s"
proof -
  have rt: "\<exists>evs. trace (snd (run_turn E i v)) = trace v @ evs \<and> board_kept evs" for i v
    by (rule run_turn_added)
  obtain res w1 where B: "call_Board E (Load (board g)) w = (res, w1)"
    by (cases "call_Board E (Load (board g)) w")
  have t1: "trace w1 = trace w @ [Board_call (Load (board g))]"
    using B by (auto simp: call_Board_def split: prod.splits)
  show ?thesis
  proof (cases res)
    case (Inl e)
    then show ?thesis using assms B t1 by (simp add: try_move_def added_def)
  next
    case (Inr b)
    obtain res' w2 where M: "call_move E b (m_text m) w1 = (res', w2)"
      by (cases "call_move E b (m_text m) w1")
    have t2: "trace w2 = trace w1 @ [Move_call (m_text m)]"
      using M by (auto simp: call_move_def split: prod.splits)
    show ?thesis
    proof (cases res')
      case (Inl e)
      then show ?thesis using assms B Inr M t1 t2 by (simp add: try_move_def added_def)
    next
      case mv: (Inr b')
      define w3 where "w3 = (if b_score E b' > score g
          then db_set_game (addr g) (Some (b_export E b')) (b_score E b') w2
          else db_set_board (addr g) (Some (b_export E b')) w2)"
      obtain evs where evs: "trace (snd (run_turn E (m_chat m) w3)) = trace w3 @ evs"
        "board_kept evs" using rt by blast
      have t3: "trace w3 = trace w @ [Board_call (Load (board g)), Move_call (m_text m),
          (if b_score E b' > score g
           then Set_game (addr g) (Some (b_export E b')) (b_score E b')
           else Set_board (addr g) (Some (b_export E b')))]"
        using t1 t2 by (simp add: w3_def db_set_game_def db_set_board_def)
      have "trace (snd (try_move E m g w)) = trace (snd (run_turn E (m_chat m) w3))"
        using B Inr M mv
        by (simp add: try_move_def w3_def add_reply_def split: prod.splits sum.splits)
      then have "added w (snd (try_move E m g w)) =
          [Board_call (Load (board g)), Move_call (m_text m),
           (if b_score E b' > score g
            then Set_game (addr g) (Some (b_export E b')) (b_score E b')
            else Set_board (addr g) (Some (b_export E b')))] @ evs"
        using evs(1) t3 by (simp add: added_def)
      then show ?thesis using assms evs(2) by (auto simp: board_kept_def split: if_splits)
    qed
  qed
qed

lemma filter_messages_score_write:
  assumes "Set_game a (Some x) s \<in> set (added w (snd (filter_messages U E m w)))"
  shows "\<exists>g. get_game_by_gid (games w) (m_chat m) = Some g \<and> a = addr g \<and> score g < s"
proof (cases "get_game_by_gid (games w) (m_chat m)")
  case None
  then show ?thesis using assms by (simp add: filter_messages_def added_def)
next
  case (Some g)
  obtain y w' where tm: "try_move E m g w = (y, w')" by (cases "try_move E m g w")
  have "filter_messages U E m w = (None, w)
      \<or> trace (snd (filter_messages U E m w)) = trace (snd (try_move E m g w))"
    using Some tm
    by (simp add: filter_messages_def add_reply_def split: option.splits error.splits)
  then have "Set_game a (Some x) s \<in> set (added w (snd (try_move E m g w)))"
    using assms by (auto simp: added_def)
  then show ?thesis using Some try_move_score_write by blast
qed

text \<open>
  C8: the score stored for a player never decreases. For an engine with the properties
  the spec gives it (\<open>sane_engine\<close>) and a world reached from an empty games table by
  the bot's handlers, no request lowers a stored score: if the player has a stored score
  before and after the request, the later one is at least the earlier one. As to who
  writes a score: a \<open>set_game\<close> that \<open>filter_messages\<close> adds with a board carries a score
  above the stored one; a \<open>set_game\<close> of \<open>_run_turn\<close> stores no board and the final
  score, which is above the board's carried \<open>old_score\<close>; \<open>lines_play\<close> and
  \<open>lines_next\<close> add no \<open>set_game\<close> but that of the \<open>_run_turn\<close> they end with.
\<close>

theorem stored_score_never_decreases:
  "(sane_engine E \<and> reachable U E w \<and> stored_score (games w) a = Some s
      \<and> stored_score (games (handle U E rq w)) a = Some s' \<longrightarrow> s \<le> s')
   \<and> (Set_game a (Some x) t \<in> set (added w (snd (filter_messages U E m w)))
      \<longrightarrow> (\<exists>g. get_game_by_gid (games w) (m_chat m) = Some g \<and> a = addr g \<and> score g < t))
   \<and> (Set_game a brd t \<in> set (added w (snd (run_turn E i w)))
      \<longrightarrow> brd = None \<and> (\<exists>g b r'. get_game_by_gid (games w) i = Some g
             \<and> Board E (Load (board g)) (rng w) = (Inr b, r') \<and> a = addr g
             \<and> t = final_score E b \<and> b_old_score E b < t))
   \<and> board_kept (added w (snd (lines_play E new_gid m w)))
   \<and> board_kept (added w (snd (lines_next E m w)))"
proof (intro conjI impI)
  assume h: "sane_engine E \<and> reachable U E w \<and> stored_score (games w) a = Some s
      \<and> stored_score (games (handle U E rq w)) a = Some s'"
  then have "db_ok E (games w)" using reachable_db_ok by blast
  with h show "s \<le> s'" using handle_ok [of E w U rq] by blast
next
  assume "Set_game a (Some x) t \<in> set (added w (snd (filter_messages U E m w)))"
  then show "\<exists>g. get_game_by_gid (games w) (m_chat m) = Some g \<and> a = addr g \<and> score g < t"
    by (rule filter_messages_score_write)
next
  assume r: "Set_game a brd t \<in> set (added w (snd (run_turn E i w)))"
  from run_turn_score_write [OF r] show "brd = None" by blast
  from run_turn_score_write [OF r]
  show "\<exists>g b r'. get_game_by_gid (games w) i = Some g
          \<and> Board E (Load (board g)) (rng w) = (Inr b, r') \<and> a = addr g
          \<and> t = final_score E b \<and> b_old_score E b < t" by blast
next
  show "board_kept (added w (snd (lines_play E new_gid m w)))"
    using lines_play_added [of E new_gid m w] added_append by metis
  show "board_kept (added w (snd (lines_next E m w)))"
    using lines_next_added [of E m w] added_append by metis
qed

lemma toy_sane: "sane_engine toy"
  by (auto simp: sane_engine_def toy_def toy_load_def split: if_splits)

theorem stored_score_never_decreases_witness:
  "sane_engine toy
   \<and> reachable latin1 toy (handle latin1 toy (Lines_play 7 (ex_msg [])) ex_start)
   \<and> stored_score (games (handle latin1 toy (Lines_play 7 (ex_msg [])) ex_start))
        (ustr ''ann@example.org'') = Some 0
   \<and> stored_score (games (handle latin1 toy (Filter_messages (ex_msg (ustr ''a1b2'')))
        (handle latin1 toy (Lines_play 7 (ex_msg [])) ex_start))) (ustr ''ann@example.org'') = Some 5
   \<and> (0::int) \<le> 5
   \<and> Set_game (ustr ''ann@example.org'') (Some [0, 5, 0]) 5
        \<in> set (added (ex_world (Some [0, 0, 0]) 0 0)
             (snd (filter_messages latin1 toy (ex_msg (ustr ''a1b2'')) (ex_world (Some [0, 0, 0]) 0 0))))
   \<and> score (the (get_game_by_gid (games (ex_world (Some [0, 0, 0]) 0 0)) 7)) < 5
   \<and> Set_game (ustr ''ann@example.org'') None 50
        \<in> set (added (ex_world (Some [42, 50, 1]) 42 0)
             (snd (run_turn toy 7 (ex_world (Some [42, 50, 1]) 42 0))))
   \<and> final_score toy (42, 50, True) = 50 \<and> b_old_score toy (42, 50, True) < 50"
proof -
  have r: "reachable latin1 toy (handle latin1 toy (Lines_play 7 (ex_msg [])) ex_start)"
    by (rule reachable.step, rule reachable.start) (simp add: ex_start_def)
  have a: "stored_score (games (handle latin1 toy (Lines_play 7 (ex_msg [])) ex_start))
        (ustr ''ann@example.org'') = Some 0"
    by (simp add: handle_def stored_score_def ex_start_def eval_defs ustr_def)
  have b: "stored_score (games (handle latin1 toy (Filter_messages (ex_msg (ustr ''a1b2'')))
        (handle latin1 toy (Lines_play 7 (ex_msg [])) ex_start))) (ustr ''ann@example.org'') = Some 5"
    by (simp add: handle_def stored_score_def ex_start_def eval_defs ustr_def)
  have c: "Set_game (ustr ''ann@example.org'') (Some [0, 5, 0]) 5
        \<in> set (added (ex_world (Some [0, 0, 0]) 0 0)
             (snd (filter_messages latin1 toy (ex_msg (ustr ''a1b2'')) (ex_world (Some [0, 0, 0]) 0 0))))"
    by (simp add: added_def eval_defs ustr_def)
  have d: "Set_game (ustr ''ann@example.org'') None 50
        \<in> set (added (ex_world (Some [42, 50, 1]) 42 0)
             (snd (run_turn toy 7 (ex_world (Some [42, 50, 1]) 42 0))))"
    by (simp add: added_def eval_defs)
  have e: "score (the (get_game_by_gid (games (ex_world (Some [0, 0, 0]) 0 0)) 7)) < 5"
    "final_score toy (42, 50, True) = 50" "b_old_score toy (42, 50, True) < 50"
    by (simp_all add: eval_defs)
  have "(0::int) \<le> 5"
    using stored_score_never_decreases [of toy latin1
        "handle latin1 toy (Lines_play 7 (ex_msg [])) ex_start" "ustr ''ann@example.org''" 0
        "Filter_messages (ex_msg (ustr ''a1b2''))" 5] toy_sane r a b
    by blast
  then show ?thesis using toy_sane r a b c d e by simp
qed

section \<open>The serialized state round-trips\<close>

lemma str_nat_digits: "str_nat n \<noteq> [] \<and> list_all (\<lambda>d. 48 \<le> d \<and> d \<le> 57) (str_nat n)"
proof (induction n rule: str_nat.induct)
  case (1 n)
  show ?case
  proof (cases "n < 10")
    case True
    then show ?thesis by (subst (1 2) str_nat.simps) simp
  next
    case False
    then show ?thesis using 1 by (subst (1 2) str_nat.simps) simp
  qed
qed

lemma foldl_str_nat: "foldl (\<lambda>a d. 10 * a + (d - 48)) 0 (str_nat n) = n"
proof (induction n rule: str_nat.induct)
  case (1 n)
  show ?case
  proof (cases "n < 10")
    case True
    then show ?thesis by (subst str_nat.simps) simp
  next
    case False
    then show ?thesis using 1 by (subst str_nat.simps) simp
  qed
qed

lemma parse_nat_str_nat: "parse_nat (str_nat n) = Some n"
  using str_nat_digits [of n] by (simp add: parse_nat_def foldl_str_nat)

lemma str_nat_no_lf: "10 \<notin> set (str_nat n)"
  using str_nat_digits [of n] by (auto simp: list_all_iff)

lemma those_map:
  "(\<And>x. x \<in> set xs \<Longrightarrow> f x = Some (g x)) \<Longrightarrow> those (map f xs) = Some (map g xs)"
  by (induction xs) auto

lemma find_inj_on:
  "inj_on f (set xs) \<Longrightarrow> c \<in> set xs \<Longrightarrow> find (\<lambda>x. f x = f c) xs = Some c"
  by (induction xs) (auto simp: inj_on_def)

lemma symbol_colour_symbol_of:
  assumes "wf_layout L" and "c \<in> set (colours L)"
  shows "symbol_colour L (symbol_of L c) = Some c"
proof -
  have "inj_on (symbol_of L) (set (colours L))"
    using assms(1) by (simp add: wf_layout_def distinct_map)
  then show ?thesis unfolding symbol_colour_def using assms(2) by (rule find_inj_on)
qed

lemma symbol_cell_cell_symbol:
  assumes "wf_layout L" and "case c of None \<Rightarrow> True | Some x \<Rightarrow> x \<in> set (colours L)"
  shows "symbol_cell L (cell_symbol L c) = Some c"
proof (cases c)
  case None
  then show ?thesis by (simp add: symbol_cell_def cell_symbol_def)
next
  case (Some x)
  then have x: "x \<in> set (colours L)" using assms(2) by simp
  then have "symbol_of L x \<noteq> empty_symbol L"
    using assms(1) by (force simp: wf_layout_def)
  then show ?thesis using Some symbol_colour_symbol_of [OF assms(1) x]
    by (simp add: symbol_cell_def cell_symbol_def)
qed

lemma split_first:
  "10 \<notin> set ds \<Longrightarrow> takeWhile (\<lambda>c. c \<noteq> 10) (ds @ 10 # rest) = ds
     \<and> drop 1 (dropWhile (\<lambda>c. c \<noteq> 10) (ds @ 10 # rest)) = rest"
  by (induction ds) auto

text \<open>
  C1: reconstructing a state from its exported string gives the same state: the grid, the
  current score, the carried-over prior score and the lookahead batch are those that
  were exported. It holds for every state with the data model's invariants, so for
  every reachable one.
\<close>

theorem import_export_round_trip:
  assumes "wf_layout L" and "wf_state L s"
  shows "import_state L (export_state L s) = Inr s"
proof -
  let ?cells = "map (cell_symbol L) (st_grid s)"
  let ?tail = "str_nat (st_score s) @ 10 # str_nat (st_old_score s) @ 10 # map (symbol_of L) (st_next_balls s)"
  have ex: "export_state L s = ?cells @ ?tail" by (simp add: export_state_def)
  have len: "length ?cells = grid_dim L * grid_dim L" using assms(2) by (simp add: wf_state_def)
  have tk: "take (grid_dim L * grid_dim L) (export_state L s) = ?cells"
    and dr: "drop (grid_dim L * grid_dim L) (export_state L s) = ?tail"
    unfolding ex using len by simp_all
  have s1: "takeWhile (\<lambda>c. c \<noteq> 10) ?tail = str_nat (st_score s)"
    and r1: "drop 1 (dropWhile (\<lambda>c. c \<noteq> 10) ?tail)
               = str_nat (st_old_score s) @ 10 # map (symbol_of L) (st_next_balls s)"
    using split_first [OF str_nat_no_lf] by blast+
  have s2: "takeWhile (\<lambda>c. c \<noteq> 10) (str_nat (st_old_score s) @ 10 # map (symbol_of L) (st_next_balls s))
               = str_nat (st_old_score s)"
    and r2: "drop 1 (dropWhile (\<lambda>c. c \<noteq> 10)
               (str_nat (st_old_score s) @ 10 # map (symbol_of L) (st_next_balls s)))
               = map (symbol_of L) (st_next_balls s)"
    using split_first [OF str_nat_no_lf] by blast+
  have g: "those (map (symbol_cell L) ?cells) = Some (st_grid s)"
  proof -
    have "those (map (symbol_cell L \<circ> cell_symbol L) (st_grid s)) = Some (map (\<lambda>c. c) (st_grid s))"
      using assms by (intro those_map) (auto simp: wf_state_def list_all_iff symbol_cell_cell_symbol)
    then show ?thesis by simp
  qed
  have nb: "those (map (symbol_colour L) (map (symbol_of L) (st_next_balls s))) = Some (st_next_balls s)"
  proof -
    have "those (map (symbol_colour L \<circ> symbol_of L) (st_next_balls s))
        = Some (map (\<lambda>c. c) (st_next_balls s))"
      using assms by (intro those_map) (auto simp: wf_state_def list_all_iff symbol_colour_symbol_of)
    then show ?thesis by simp
  qed
  have lb: "length (map (symbol_of L) (st_next_balls s)) = batch_len L"
    using assms(2) by (simp add: wf_state_def)
  show ?thesis
    unfolding import_state_def Let_def tk dr s1 r1 s2 r2
    using len lb g nb by (simp add: parse_nat_str_nat)
qed

theorem import_export_round_trip_witness:
  "wf_layout std_layout \<and> wf_state std_layout ex_state
   \<and> import_state std_layout (export_state std_layout ex_state) = Inr ex_state"
proof -
  have l: "wf_layout std_layout"
    by (simp add: wf_layout_def std_layout_def)
  have s: "wf_state std_layout ex_state"
    by (auto simp: wf_state_def std_layout_def ex_state_def list_all_iff)
  show ?thesis using import_export_round_trip [OF l s] l s by simp
qed

end
